theory Spec2Isabelle
  imports Main "HOL-Library.Word"
begin

unbundle bit_operations_syntax

section \<open>Handles, names and errors\<close>

type_synonym byte = "8 word"
type_synonym Handle = "32 word"
type_synonym HandleType = "8 word"
type_synonym Name = "byte list"
type_synonym NVAttributes = "32 word"

text \<open>
  Modelled from the spec: the declarations of \<open>Handle.Type\<close>, of the \<open>HandleType\<close>
  constants, of \<open>HandleNull\<close> and of \<open>AttrNVPlatformCreate\<close> are not among the
  sources, which only use them. The spec gives the handle type as the projection of the
  most-significant byte of the 32-bit handle; the numeric values are the ones the TPM 2.0
  library specification assigns to the names (TPM_HT_*, TPM_RH_NULL, TPMA_NV_PLATFORMCREATE).
\<close>

definition Type :: "Handle \<Rightarrow> HandleType" where
  "Type h = ucast (drop_bit 24 h)"

definition HandleTypePCR :: HandleType where "HandleTypePCR = 0x00"
definition HandleTypeNVIndex :: HandleType where "HandleTypeNVIndex = 0x01"
definition HandleTypeHMACSession :: HandleType where "HandleTypeHMACSession = 0x02"
definition HandleTypePolicySession :: HandleType where "HandleTypePolicySession = 0x03"
definition HandleTypePermanent :: HandleType where "HandleTypePermanent = 0x40"
definition HandleTypeTransient :: HandleType where "HandleTypeTransient = 0x80"
definition HandleTypePersistent :: HandleType where "HandleTypePersistent = 0x81"

definition HandleNull :: Handle where "HandleNull = 0x40000007"

definition AttrNVPlatformCreate :: NVAttributes where "AttrNVPlatformCreate = 0x40000000"

text \<open>
  The error values of the package. \<open>errors.New\<close> values are \<open>ErrorString\<close>,
  \<open>fmt.Errorf("...: %v", err)\<close> is \<open>WrappedError\<close> with the text before the colon and
  the error it formats; \<open>*TPMWarning\<close> carries the field \<open>Code\<close>, \<open>*TPMHandleError\<close> the
  result of its method \<open>Code()\<close> and the handle index. The type declarations are not among
  the sources; the constructors follow the way \<open>WrapHandle\<close>, \<open>CreatePrimary\<close> and the
  tests use them. \<open>WarningReferenceH0\<close> and \<open>ErrorHandle\<close> carry the TPM 2.0 values.
\<close>

datatype error =
    ErrorString string
  | WrappedError string error
  | TPMWarning "32 word" "8 word"
  | TPMError "32 word" "8 word"
  | TPMHandleError "32 word" "8 word" nat
  | TPMParameterError "32 word" "8 word" nat
  | TPMSessionError "32 word" "8 word" nat
  | InvalidResponseError "32 word" string
  | TransportError string
  | ResourceUnavailableError Handle

definition WarningReferenceH0 :: "8 word" where "WarningReferenceH0 = 0x10"
definition ErrorHandle :: "8 word" where "ErrorHandle = 0x0b"

text \<open>Run-time panics of the Go code, as values.\<close>

datatype panic =
    PanicEvictPermanent
  | PanicEvictInvalid error
  | PanicAddClosed
  | PanicAlreadyExists Handle
  | PanicNilDereference
  | PanicIndexOutOfRange
  | PanicForgetPCR

text \<open>
  \<open>binary.BigEndian.PutUint32(b, v)\<close> writes the four bytes of \<open>v\<close> over the first
  four bytes of the slice \<open>b\<close> in place and leaves the rest of \<open>b\<close> as it is; it
  panics when \<open>b\<close> is shorter than four bytes.
\<close>

definition be32 :: "32 word \<Rightarrow> byte list" where
  "be32 v = [ucast (drop_bit 24 v), ucast (drop_bit 16 v), ucast (drop_bit 8 v), ucast v]"

definition PutUint32 :: "byte list \<Rightarrow> 32 word \<Rightarrow> panic + byte list" where
  "PutUint32 b v = (if length b < 4 then Inl PanicIndexOutOfRange else Inr (be32 v @ drop 4 b))"

section \<open>Resource contexts\<close>

text \<open>
  \<open>Public\<close> and \<open>NVPublic\<close> are declared outside the sources; the records carry the
  scalar fields the sources and tests set. No function modelled here reads the parameter
  and unique unions of \<open>Public\<close>, which are left out.
\<close>

record Public =
  pub_Type :: "16 word"
  pub_NameAlg :: "16 word"
  pub_Attrs :: "32 word"
  pub_AuthPolicy :: "byte list"

record NVPublic =
  Index :: Handle
  NameAlg :: "16 word"
  Attrs :: NVAttributes
  Size :: "16 word"

definition zeroPublic :: Public where
  "zeroPublic = \<lparr>pub_Type = 0, pub_NameAlg = 0, pub_Attrs = 0, pub_AuthPolicy = []\<rparr>"

definition zeroNVPublic :: NVPublic where
  "zeroNVPublic = \<lparr>Index = 0, NameAlg = 0, Attrs = 0, Size = 0\<rparr>"

record objectContext =
  o_handle :: Handle
  o_public :: Public
  o_name :: Name

record nvIndexContext =
  nv_handle :: Handle
  nv_public :: NVPublic
  nv_name :: Name

record sessionContext =
  s_handle :: Handle
  hashAlg :: "16 word"
  sessionType :: "8 word"
  policyHMACType :: "8 word"
  isBound :: bool
  boundEntity :: Name
  sessionKey :: "byte list"
  nonceCaller :: "byte list"
  nonceTPM :: "byte list"
  symmetric :: "(16 word \<times> 16 word \<times> 16 word) option"

text \<open>
  A \<open>ResourceContext\<close> interface value is nil, a \<open>permanentContext\<close> (a value type,
  the handle itself) or a pointer to an \<open>objectContext\<close>, \<open>nvIndexContext\<close> or
  \<open>sessionContext\<close>. Pointers are addresses into one store per struct type; two interface
  values are equal when their dynamic types and addresses are.
\<close>

type_synonym ref = nat

datatype ResourceContext =
    NilContext
  | PermanentContext Handle
  | ObjectRef ref
  | NVIndexRef ref
  | SessionRef ref

text \<open>
  The state: the table \<open>t.resources\<close> of the \<open>TPMContext\<close> and the stores the context
  pointers point into. The Go map is an association list with at most one entry per key;
  its order is the (unspecified) order in which \<open>range\<close> visits the map. \<open>nextRef\<close> is
  the next unused address.
\<close>

record state =
  resources :: "(Handle \<times> ResourceContext) list"
  objects :: "ref \<Rightarrow> objectContext"
  nvIndices :: "ref \<Rightarrow> nvIndexContext"
  sessions :: "ref \<Rightarrow> sessionContext"
  nextRef :: ref

fun isPermanent :: "ResourceContext \<Rightarrow> bool" where
  "isPermanent (PermanentContext h) = True"
| "isPermanent rc = False"

text \<open>\<open>rc.Handle()\<close>: a method call on the nil interface panics.\<close>

fun Handle_of :: "state \<Rightarrow> ResourceContext \<Rightarrow> panic + Handle" where
  "Handle_of t NilContext = Inl PanicNilDereference"
| "Handle_of t (PermanentContext h) = Inr h"
| "Handle_of t (ObjectRef r) = Inr (o_handle (objects t r))"
| "Handle_of t (NVIndexRef r) = Inr (nv_handle (nvIndices t r))"
| "Handle_of t (SessionRef r) = Inr (s_handle (sessions t r))"

fun Name_of :: "state \<Rightarrow> ResourceContext \<Rightarrow> panic + Name" where
  "Name_of t NilContext = Inl PanicNilDereference"
| "Name_of t (PermanentContext h) = Inr (be32 h)"
| "Name_of t (ObjectRef r) = Inr (o_name (objects t r))"
| "Name_of t (NVIndexRef r) = Inr (nv_name (nvIndices t r))"
| "Name_of t (SessionRef r) = Inr (be32 (s_handle (sessions t r)))"

text \<open>The \<open>invalidate\<close> methods of the four context types.\<close>

definition invalidate_object :: "objectContext \<Rightarrow> panic + objectContext" where
  "invalidate_object r =
     (case PutUint32 (o_name r) HandleNull of
        Inl p \<Rightarrow> Inl p
      | Inr n \<Rightarrow> Inr (r\<lparr>o_handle := HandleNull, o_public := zeroPublic, o_name := n\<rparr>))"

definition invalidate_nvIndex :: "nvIndexContext \<Rightarrow> panic + nvIndexContext" where
  "invalidate_nvIndex r =
     (case PutUint32 (nv_name r) HandleNull of
        Inl p \<Rightarrow> Inl p
      | Inr n \<Rightarrow> Inr (r\<lparr>nv_handle := HandleNull, nv_public := zeroNVPublic, nv_name := n\<rparr>))"

definition invalidate_session :: "sessionContext \<Rightarrow> sessionContext" where
  "invalidate_session r = r\<lparr>s_handle := HandleNull\<rparr>"

fun invalidate :: "state \<Rightarrow> ResourceContext \<Rightarrow> panic + state" where
  "invalidate t NilContext = Inl PanicNilDereference"
| "invalidate t (PermanentContext h) = Inr t"
| "invalidate t (ObjectRef r) =
     (case invalidate_object (objects t r) of
        Inl p \<Rightarrow> Inl p
      | Inr c \<Rightarrow> Inr (t\<lparr>objects := (objects t)(r := c)\<rparr>))"
| "invalidate t (NVIndexRef r) =
     (case invalidate_nvIndex (nvIndices t r) of
        Inl p \<Rightarrow> Inl p
      | Inr c \<Rightarrow> Inr (t\<lparr>nvIndices := (nvIndices t)(r := c)\<rparr>))"
| "invalidate t (SessionRef r) =
     Inr (t\<lparr>sessions := (sessions t)(r := invalidate_session (sessions t r))\<rparr>)"

section \<open>The resource table\<close>

definition checkResourceContextParam :: "state \<Rightarrow> ResourceContext \<Rightarrow> error option" where
  "checkResourceContextParam t rc =
     (if rc = NilContext then Some (ErrorString ''nil value'')
      else if isPermanent rc then None
      else (case Handle_of t rc of
              Inl p \<Rightarrow> Some (ErrorString ''nil value'')
            | Inr h \<Rightarrow>
                if h = HandleNull then Some (ErrorString ''resource has been closed'')
                else (case map_of (resources t) h of
                        None \<Rightarrow> Some (ErrorString ''resource belongs to another TPM context'')
                      | Some erc \<Rightarrow>
                          if erc \<noteq> rc
                          then Some (ErrorString ''resource belongs to another TPM context'')
                          else None)))"

definition delete_key :: "Handle \<Rightarrow> (Handle \<times> ResourceContext) list \<Rightarrow> (Handle \<times> ResourceContext) list" where
  "delete_key h xs = filter (\<lambda>e. fst e \<noteq> h) xs"

definition evictResourceContext :: "state \<Rightarrow> ResourceContext \<Rightarrow> panic + state" where
  "evictResourceContext t rc =
     (if isPermanent rc then Inl PanicEvictPermanent
      else (case checkResourceContextParam t rc of
              Some err \<Rightarrow> Inl (PanicEvictInvalid err)
            | None \<Rightarrow>
                (case Handle_of t rc of
                   Inl p \<Rightarrow> Inl p
                 | Inr h \<Rightarrow> invalidate (t\<lparr>resources := delete_key h (resources t)\<rparr>) rc)))"

definition addResourceContext :: "state \<Rightarrow> ResourceContext \<Rightarrow> panic + state" where
  "addResourceContext t rc =
     (if isPermanent rc then Inr t
      else (case Handle_of t rc of
              Inl p \<Rightarrow> Inl p
            | Inr h \<Rightarrow>
                if h = HandleNull then Inl PanicAddClosed
                else (case map_of (resources t) h of
                        Some erc \<Rightarrow> Inl (PanicAlreadyExists h)
                      | None \<Rightarrow> Inr (t\<lparr>resources := resources t @ [(h, rc)]\<rparr>))))"

section \<open>Wrapping and forgetting handles\<close>

text \<open>
  \<open>t.nvReadPublic\<close> and \<open>t.readPublic\<close> query the TPM for the public area and the
  name of a handle. They are collaborators outside the sources: the functions below take
  the answer of the TPM as a parameter. \<open>&nvIndexContext{...}\<close> allocates a new
  context at the next unused address.
\<close>

definition makeNVIndexContext ::
  "(Handle \<Rightarrow> error + NVPublic \<times> Name) \<Rightarrow> state \<Rightarrow> Handle
     \<Rightarrow> (ResourceContext \<times> error option) \<times> state" where
  "makeNVIndexContext nvReadPublic t handle =
     (case nvReadPublic handle of
        Inl err \<Rightarrow> ((NilContext, Some err), t)
      | Inr (pub, name) \<Rightarrow>
          ((NVIndexRef (nextRef t), None),
           t\<lparr>nvIndices := (nvIndices t)
                 (nextRef t := \<lparr>nv_handle = handle, nv_public = pub, nv_name = name\<rparr>),
             nextRef := Suc (nextRef t)\<rparr>))"

definition makeObjectContext ::
  "(Handle \<Rightarrow> error + Public \<times> Name) \<Rightarrow> state \<Rightarrow> Handle
     \<Rightarrow> (ResourceContext \<times> error option) \<times> state" where
  "makeObjectContext readPublic t handle =
     (case readPublic handle of
        Inl err \<Rightarrow> ((NilContext, Some err), t)
      | Inr (pub, name) \<Rightarrow>
          ((ObjectRef (nextRef t), None),
           t\<lparr>objects := (objects t)
                 (nextRef t := \<lparr>o_handle = handle, o_public = pub, o_name = name\<rparr>),
             nextRef := Suc (nextRef t)\<rparr>))"

text \<open>The \<open>switch handle.Type()\<close> of \<open>WrapHandle\<close>; no case matches any other type.\<close>

definition wrapByType ::
  "(Handle \<Rightarrow> error + NVPublic \<times> Name) \<Rightarrow> (Handle \<Rightarrow> error + Public \<times> Name)
     \<Rightarrow> state \<Rightarrow> Handle \<Rightarrow> (ResourceContext \<times> error option) \<times> state" where
  "wrapByType nvReadPublic readPublic t handle =
     (if Type handle = HandleTypePCR
        then ((NilContext, Some (ErrorString ''cannot wrap a PCR handle'')), t)
      else if Type handle = HandleTypeNVIndex
        then makeNVIndexContext nvReadPublic t handle
      else if Type handle = HandleTypeHMACSession \<or> Type handle = HandleTypePolicySession
        then ((NilContext, Some (ErrorString ''cannot wrap the handle of an existing session'')), t)
      else if Type handle = HandleTypePermanent
        then ((PermanentContext handle, None), t)
      else if Type handle = HandleTypeTransient \<or> Type handle = HandleTypePersistent
        then makeObjectContext readPublic t handle
      else ((NilContext, None), t))"

text \<open>The \<open>switch e := err.(type)\<close> of \<open>WrapHandle\<close>: the error it returns for \<open>err\<close>.\<close>

fun wrapError :: "Handle \<Rightarrow> error \<Rightarrow> error" where
  "wrapError handle (TPMWarning cmd code) =
     (if code = WarningReferenceH0 then ResourceUnavailableError handle
      else TPMWarning cmd code)"
| "wrapError handle (TPMHandleError cmd code i) =
     (if code = ErrorHandle then ResourceUnavailableError handle
      else TPMHandleError cmd code i)"
| "wrapError handle err = err"

definition WrapHandle ::
  "(Handle \<Rightarrow> error + NVPublic \<times> Name) \<Rightarrow> (Handle \<Rightarrow> error + Public \<times> Name)
     \<Rightarrow> state \<Rightarrow> Handle \<Rightarrow> panic + (ResourceContext \<times> error option) \<times> state" where
  "WrapHandle nvReadPublic readPublic t handle =
     (case map_of (resources t) handle of
        Some rc \<Rightarrow> Inr ((rc, None), t)
      | None \<Rightarrow>
          (case wrapByType nvReadPublic readPublic t handle of
             ((rc, Some err), t1) \<Rightarrow> Inr ((NilContext, Some (wrapError handle err)), t1)
           | ((rc, None), t1) \<Rightarrow>
               (case addResourceContext t1 rc of
                  Inl p \<Rightarrow> Inl p
                | Inr t2 \<Rightarrow> Inr ((rc, None), t2))))"

definition forgetSessionMessage :: string where
  "forgetSessionMessage =
     ''cannot forget a session context as it is not possible to recreate the context later on, which means that it '' @
     ''would not be able to be flushed using this API. Please use TPMContext.FlushContext to flush it from the TPM instead''"

definition ForgetResource :: "state \<Rightarrow> ResourceContext \<Rightarrow> panic + error option \<times> state" where
  "ForgetResource t context =
     (case checkResourceContextParam t context of
        Some err \<Rightarrow> Inr (Some err, t)
      | None \<Rightarrow>
          (case Handle_of t context of
             Inl p \<Rightarrow> Inl p
           | Inr h \<Rightarrow>
               if Type h = HandleTypePCR then Inl PanicForgetPCR
               else if Type h = HandleTypeHMACSession \<or> Type h = HandleTypePolicySession
                 then Inr (Some (ErrorString forgetSessionMessage), t)
               else if Type h = HandleTypePermanent then Inr (None, t)
               else (case evictResourceContext t context of
                       Inl p \<Rightarrow> Inl p
                     | Inr t' \<Rightarrow> Inr (None, t'))))"

section \<open>Hierarchy commands\<close>

text \<open>
  A \<open>Session\<close> pairs a session context with the authorization value the caller supplies
  for the entity; \<open>includeAuthValue\<close> records whether the HMAC key of the current command
  includes that value. A \<open>sessionParam\<close> holds the session of one authorization (nil for
  a password authorization), a \<open>cmdContext\<close> the command in flight: its code, its session
  parameters and, once the TPM has answered, the digest of the response parameters and the
  response authorization area (for each session the nonce of the TPM, the session
  attributes and the HMAC). The struct declarations are not among the sources; the fields
  are the ones \<open>Clear\<close> and \<open>HierarchyChangeAuth\<close> use and the ones the spec names.
\<close>

record Session =
  Context :: ResourceContext
  AuthValue :: "byte list"
  SessionAttrs :: byte
  includeAuthValue :: bool

record sessionParam =
  session :: "Session option"

record authResponse =
  ar_nonceTPM :: "byte list"
  ar_attrs :: byte
  ar_hmac :: "byte list"

record cmdContext =
  commandCode :: "32 word"
  sessionParams :: "sessionParam list"
  rpHash :: "byte list"
  responseAuthArea :: "authResponse list"

text \<open>The \<open>authHandleAuth interface{}\<close> argument: nil, a password or a session.\<close>

datatype auth = AuthNil | AuthPassword "byte list" | AuthSession Session

definition CommandClear :: "32 word" where "CommandClear = 0x00000126"
definition CommandHierarchyChangeAuth :: "32 word" where "CommandHierarchyChangeAuth = 0x00000129"

definition BaseHandle :: "HandleType \<Rightarrow> Handle" where
  "BaseHandle ht = push_bit 24 (ucast ht)"

text \<open>
  The collaborators of the hierarchy commands that are outside the sources, as parameters:
  the two uses of \<open>validateAndAppendSessionParam\<close> (on the handle with its authorization,
  on the further sessions), \<open>runCommandWithoutProcessingResponse\<close> (the command code, the
  session parameters, the handle and the marshalled parameters go in; the command context
  or an error comes out, and the state as the pipeline leaves it), the capability
  enumeration \<open>GetCapabilityHandles\<close> and \<open>processResponse\<close>.
\<close>

record pipeline =
  validateHandleWithAuth ::
    "state \<Rightarrow> sessionParam list \<Rightarrow> Handle \<Rightarrow> auth \<Rightarrow> error + sessionParam list"
  validateSessions ::
    "state \<Rightarrow> sessionParam list \<Rightarrow> Session list \<Rightarrow> error + sessionParam list"
  runCommandWithoutProcessingResponse ::
    "state \<Rightarrow> 32 word \<Rightarrow> sessionParam list \<Rightarrow> Handle \<Rightarrow> byte list list
       \<Rightarrow> (error + cmdContext) \<times> state"
  GetCapabilityHandles :: "Handle \<Rightarrow> error + Handle list"
  processResponse :: "state \<Rightarrow> cmdContext \<Rightarrow> error option \<times> state"

text \<open>
  Modelled from the spec: \<open>Session.copyWithNewAuthIfRequired\<close> is not among the sources.
  The spec has the response key of a rotation command recomputed from the post-change
  secret; the comments at its two call sites say that this applies when the HMAC key of the
  command includes the auth value of the handle. The copy leaves the caller's \<open>Session\<close>
  as it is.
\<close>

definition copyWithNewAuthIfRequired :: "Session \<Rightarrow> byte list \<Rightarrow> Session" where
  "copyWithNewAuthIfRequired s newAuth =
     (if includeAuthValue s then s\<lparr>AuthValue := newAuth\<rparr> else s)"

text \<open>
  Modelled from the spec: the session state machine (section 4.2) is not among the sources.
  The per-use HMAC key is \<open>sessionKey || authValue\<close>, with the auth value only when
  \<open>includeAuthValue\<close> holds; the response HMAC is
  \<open>HMAC(key, nonceTPM || nonceCaller || sessionAttributes || rpHash)\<close> and a response whose
  HMAC differs from the computed one is rejected with an \<open>InvalidResponseError\<close>. The
  keyed digest \<open>hmac\<close> is a black box, taken as a parameter. \<open>processResponseHMAC\<close> is
  this verification step of \<open>processResponse\<close>, over the sessions of the command in their
  positions.
\<close>

definition hmacKey :: "state \<Rightarrow> Session \<Rightarrow> byte list" where
  "hmacKey t s =
     (case Context s of
        SessionRef r \<Rightarrow> sessionKey (sessions t r) @ (if includeAuthValue s then AuthValue s else [])
      | _ \<Rightarrow> (if includeAuthValue s then AuthValue s else []))"

definition sessionNonceCaller :: "state \<Rightarrow> Session \<Rightarrow> byte list" where
  "sessionNonceCaller t s = (case Context s of SessionRef r \<Rightarrow> nonceCaller (sessions t r) | _ \<Rightarrow> [])"

definition responseHMAC ::
  "(byte list \<Rightarrow> byte list \<Rightarrow> byte list) \<Rightarrow> byte list \<Rightarrow> byte list \<Rightarrow> cmdContext
     \<Rightarrow> authResponse \<Rightarrow> byte list" where
  "responseHMAC hmac key nc ctx ar = hmac key (ar_nonceTPM ar @ nc @ [ar_attrs ar] @ rpHash ctx)"

fun verifyResponseHMACs ::
  "(byte list \<Rightarrow> byte list \<Rightarrow> byte list) \<Rightarrow> state \<Rightarrow> cmdContext
     \<Rightarrow> sessionParam list \<Rightarrow> authResponse list \<Rightarrow> bool" where
  "verifyResponseHMACs hmac t ctx [] ars = True"
| "verifyResponseHMACs hmac t ctx (sp # sps) [] = False"
| "verifyResponseHMACs hmac t ctx (sp # sps) (ar # ars) =
     ((case session sp of
         None \<Rightarrow> True
       | Some s \<Rightarrow> responseHMAC hmac (hmacKey t s) (sessionNonceCaller t s) ctx ar = ar_hmac ar)
      \<and> verifyResponseHMACs hmac t ctx sps ars)"

definition processResponseHMAC ::
  "(byte list \<Rightarrow> byte list \<Rightarrow> byte list) \<Rightarrow> state \<Rightarrow> cmdContext \<Rightarrow> error option \<times> state" where
  "processResponseHMAC hmac t ctx =
     (if verifyResponseHMACs hmac t ctx (sessionParams ctx) (responseAuthArea ctx)
      then (None, t)
      else (Some (InvalidResponseError (commandCode ctx) ''incorrect HMAC''), t))"

text \<open>The closure \<open>getHandles\<close> of \<open>Clear\<close>: an enumeration that fails adds nothing.\<close>

definition getHandles :: "pipeline \<Rightarrow> HandleType \<Rightarrow> Handle set \<Rightarrow> Handle set" where
  "getHandles p handleType out =
     (case GetCapabilityHandles p (BaseHandle handleType) of
        Inl err \<Rightarrow> out
      | Inr handles \<Rightarrow> out \<union> set handles)"

text \<open>
  The type switch in the loop of \<open>Clear\<close>: whether the loop continues without evicting
  \<open>rc\<close>. No case of the switch matches a permanent context or nil.
\<close>

fun sweepContinues :: "Handle set \<Rightarrow> state \<Rightarrow> ResourceContext \<Rightarrow> bool" where
  "sweepContinues handles t (ObjectRef r) = (o_handle (objects t r) \<in> handles)"
| "sweepContinues handles t (NVIndexRef r) =
     (Attrs (nv_public (nvIndices t r)) AND AttrNVPlatformCreate > 0)"
| "sweepContinues handles t (SessionRef r) = True"
| "sweepContinues handles t rc = False"

text \<open>
  The loop \<open>for _, rc := range t.resources\<close> over the entries the map has when the loop
  starts, in the order of the iteration. Go does not produce an entry that was deleted
  before the iteration reached it.
\<close>

fun sweep :: "Handle set \<Rightarrow> (Handle \<times> ResourceContext) list \<Rightarrow> state \<Rightarrow> panic + state" where
  "sweep handles [] t = Inr t"
| "sweep handles ((k, rc) # es) t =
     (if map_of (resources t) k = None then sweep handles es t
      else if sweepContinues handles t rc then sweep handles es t
      else (case evictResourceContext t rc of
              Inl p \<Rightarrow> Inl p
            | Inr t' \<Rightarrow> sweep handles es t'))"

text \<open>
  \<open>ctx.sessionParams[0].session = authSession.copyWithNewAuthIfRequired(newAuth)\<close>, when
  the session of the first parameter is not nil.
\<close>

definition adoptNewAuth :: "cmdContext \<Rightarrow> byte list \<Rightarrow> panic + cmdContext" where
  "adoptNewAuth ctx newAuth =
     (case sessionParams ctx of
        [] \<Rightarrow> Inl PanicIndexOutOfRange
      | sp # rest \<Rightarrow>
          (case session sp of
             None \<Rightarrow> Inr ctx
           | Some authSession \<Rightarrow>
               Inr (ctx\<lparr>sessionParams :=
                          sp\<lparr>session := Some (copyWithNewAuthIfRequired authSession newAuth)\<rparr> # rest\<rparr>)))"

definition Clear ::
  "pipeline \<Rightarrow> state \<Rightarrow> Handle \<Rightarrow> auth \<Rightarrow> Session list \<Rightarrow> panic + error option \<times> state" where
  "Clear p t authHandle authHandleAuth sess =
     (case validateHandleWithAuth p t [] authHandle authHandleAuth of
        Inl err \<Rightarrow>
          Inr (Some (WrappedError
                 ''error whilst processing handle with authorization for authHandle'' err), t)
      | Inr s \<Rightarrow>
          (case validateSessions p t s sess of
             Inl err \<Rightarrow>
               Inr (Some (WrappedError ''error whilst processing non-auth sessions'' err), t)
           | Inr s' \<Rightarrow>
               (case runCommandWithoutProcessingResponse p t CommandClear s' authHandle [] of
                  (res, t1) \<Rightarrow>
                    (case sweep (getHandles p HandleTypePersistent
                                   (getHandles p HandleTypeTransient {}))
                            (resources t1) t1 of
                       Inl pn \<Rightarrow> Inl pn
                     | Inr t2 \<Rightarrow>
                         (case res of
                            Inl err \<Rightarrow> Inr (Some err, t2)
                          | Inr ctx \<Rightarrow>
                              (case adoptNewAuth ctx [] of
                                 Inl pn \<Rightarrow> Inl pn
                               | Inr ctx' \<Rightarrow> Inr (processResponse p t2 ctx')))))))"

definition HierarchyChangeAuth ::
  "pipeline \<Rightarrow> state \<Rightarrow> Handle \<Rightarrow> byte list \<Rightarrow> auth \<Rightarrow> Session list
     \<Rightarrow> panic + error option \<times> state" where
  "HierarchyChangeAuth p t authHandle newAuth authHandleAuth sess =
     (case validateHandleWithAuth p t [] authHandle authHandleAuth of
        Inl err \<Rightarrow>
          Inr (Some (WrappedError
                 ''error whilst processing handle with authorization for authHandle'' err), t)
      | Inr s \<Rightarrow>
          (case validateSessions p t s sess of
             Inl err \<Rightarrow>
               Inr (Some (WrappedError ''error whilst processing non-auth sessions'' err), t)
           | Inr s' \<Rightarrow>
               (case runCommandWithoutProcessingResponse p t CommandHierarchyChangeAuth s'
                       authHandle [newAuth] of
                  (Inl err, t1) \<Rightarrow> Inr (Some err, t1)
                | (Inr ctx, t1) \<Rightarrow>
                    (case adoptNewAuth ctx newAuth of
                       Inl pn \<Rightarrow> Inl pn
                     | Inr ctx' \<Rightarrow> Inr (processResponse p t1 ctx')))))"

section \<open>Invariants of the resource table\<close>

text \<open>
  What \<open>addResourceContext\<close> establishes for every entry it stores: the entry is a pointer
  to a context whose handle is the key, and the key is not the null handle. The names of
  tracked objects and NV indices hold at least the four bytes that \<open>invalidate\<close> writes
  (a name read from the TPM is an algorithm identifier followed by a digest).
\<close>

fun entryConsistent :: "state \<Rightarrow> Handle \<times> ResourceContext \<Rightarrow> bool" where
  "entryConsistent t (h, ObjectRef r) =
     (o_handle (objects t r) = h \<and> h \<noteq> HandleNull \<and> 4 \<le> length (o_name (objects t r)))"
| "entryConsistent t (h, NVIndexRef r) =
     (nv_handle (nvIndices t r) = h \<and> h \<noteq> HandleNull \<and> 4 \<le> length (nv_name (nvIndices t r)))"
| "entryConsistent t (h, SessionRef r) = (s_handle (sessions t r) = h \<and> h \<noteq> HandleNull)"
| "entryConsistent t (h, rc) = False"

definition tableConsistent :: "state \<Rightarrow> bool" where
  "tableConsistent t =
     (distinct (map fst (resources t)) \<and> list_all (entryConsistent t) (resources t))"

definition noPermanentTracked :: "state \<Rightarrow> bool" where
  "noPermanentTracked t = list_all (\<lambda>e. \<not> isPermanent (snd e)) (resources t)"

text \<open>What an evicted context looks like, and what an untouched one looks like.\<close>

definition evictedIn :: "state \<Rightarrow> Handle \<times> ResourceContext \<Rightarrow> bool" where
  "evictedIn t' e =
     (map_of (resources t') (fst e) = None \<and> Handle_of t' (snd e) = Inr HandleNull)"

definition retainedIn :: "state \<Rightarrow> state \<Rightarrow> Handle \<times> ResourceContext \<Rightarrow> bool" where
  "retainedIn t t' e =
     (map_of (resources t') (fst e) = Some (snd e) \<and> Handle_of t' (snd e) = Inr (fst e)
      \<and> Name_of t' (snd e) = Name_of t (snd e))"

definition invalidated_object :: "objectContext \<Rightarrow> objectContext" where
  "invalidated_object r =
     r\<lparr>o_handle := HandleNull, o_public := zeroPublic,
       o_name := be32 HandleNull @ drop 4 (o_name r)\<rparr>"

definition invalidated_nvIndex :: "nvIndexContext \<Rightarrow> nvIndexContext" where
  "invalidated_nvIndex r =
     r\<lparr>nv_handle := HandleNull, nv_public := zeroNVPublic,
       nv_name := be32 HandleNull @ drop 4 (nv_name r)\<rparr>"

text \<open>The data of a context is the same in two states.\<close>

fun sameContext :: "state \<Rightarrow> state \<Rightarrow> ResourceContext \<Rightarrow> bool" where
  "sameContext t t' (ObjectRef r) = (objects t' r = objects t r)"
| "sameContext t t' (NVIndexRef r) = (nvIndices t' r = nvIndices t r)"
| "sameContext t t' (SessionRef r) = (sessions t' r = sessions t r)"
| "sameContext t t' rc = True"

section \<open>A concrete TPM context\<close>

text \<open>
  The contexts of the test of \<open>Clear\<close>: a transient primary key with a SHA-256 name, its
  persistent copy, an NV index of the owner, an NV index created by the platform and a
  policy session.
\<close>

definition exName :: Name where
  "exName = [0x00, 0x0b] @ replicate 32 0xaa"

definition exPublic :: Public where
  "exPublic = \<lparr>pub_Type = 0x0001, pub_NameAlg = 0x000b, pub_Attrs = 0x00030072, pub_AuthPolicy = []\<rparr>"

definition exObject :: objectContext where
  "exObject = \<lparr>o_handle = 0x80000000, o_public = exPublic, o_name = exName\<rparr>"

definition exPersistent :: objectContext where
  "exPersistent = \<lparr>o_handle = 0x8100ffff, o_public = exPublic, o_name = exName\<rparr>"

definition exNVOwner :: nvIndexContext where
  "exNVOwner =
     \<lparr>nv_handle = 0x0181ffff,
      nv_public = \<lparr>Index = 0x0181ffff, NameAlg = 0x000b, Attrs = 0x00040004, Size = 8\<rparr>,
      nv_name = exName\<rparr>"

definition exNVPlatform :: nvIndexContext where
  "exNVPlatform =
     \<lparr>nv_handle = 0x0141ffff,
      nv_public = \<lparr>Index = 0x0141ffff, NameAlg = 0x000b, Attrs = 0x40040004, Size = 8\<rparr>,
      nv_name = exName\<rparr>"

definition exSession :: sessionContext where
  "exSession =
     \<lparr>s_handle = 0x03000000, hashAlg = 0x000b, sessionType = 0x01, policyHMACType = 0,
      isBound = False, boundEntity = [], sessionKey = [0x01, 0x02], nonceCaller = [0x11],
      nonceTPM = [0x22], symmetric = None\<rparr>"

definition emptyState :: state where
  "emptyState =
     \<lparr>resources = [],
      objects = (\<lambda>r. \<lparr>o_handle = 0, o_public = zeroPublic, o_name = []\<rparr>),
      nvIndices = (\<lambda>r. \<lparr>nv_handle = 0, nv_public = zeroNVPublic, nv_name = []\<rparr>),
      sessions = (\<lambda>r. exSession\<lparr>s_handle := 0\<rparr>),
      nextRef = 0\<rparr>"

definition exState :: state where
  "exState =
     emptyState
       \<lparr>resources :=
          [(0x80000000, ObjectRef 0), (0x0181ffff, NVIndexRef 0), (0x03000000, SessionRef 0),
           (0x8100ffff, ObjectRef 1), (0x0141ffff, NVIndexRef 1)],
        objects := (objects emptyState)(0 := exObject, 1 := exPersistent),
        nvIndices := (nvIndices emptyState)(0 := exNVOwner, 1 := exNVPlatform),
        sessions := (sessions emptyState)(0 := exSession),
        nextRef := 2\<rparr>"

text \<open>
  Answers of the TPM to the metadata queries of \<open>WrapHandle\<close>: one NV index and one
  transient object exist, one NV index and one object are reported missing, every other
  query fails in the transport.
\<close>

definition exNvReadPublic :: "Handle \<Rightarrow> error + NVPublic \<times> Name" where
  "exNvReadPublic h =
     (if h = 0x01000001
        then Inr (\<lparr>Index = 0x01000001, NameAlg = 0x000b, Attrs = 0x00040004, Size = 8\<rparr>, exName)
      else if h = 0x01000002 then Inl (TPMHandleError 0x00000169 ErrorHandle 1)
      else Inl (TransportError ''EOF''))"

definition exReadPublic :: "Handle \<Rightarrow> error + Public \<times> Name" where
  "exReadPublic h =
     (if h = 0x80000001 then Inr (exPublic, exName)
      else if h = 0x80000002 then Inl (TPMWarning 0x00000173 WarningReferenceH0)
      else Inl (TransportError ''EOF''))"

text \<open>
  Collaborators for \<open>Clear\<close>: a pipeline in which every step succeeds and the
  enumerations report that only the persistent key is still resident; one in which the
  enumeration of the transient handles fails; and one whose transport is down, so that
  the command and both enumerations fail.
\<close>

definition exPipeline :: pipeline where
  "exPipeline =
     \<lparr>validateHandleWithAuth =
        (\<lambda>t s h a. Inr (s @ [\<lparr>session = (case a of AuthSession x \<Rightarrow> Some x | _ \<Rightarrow> None)\<rparr>])),
      validateSessions = (\<lambda>t s ss. Inr (s @ map (\<lambda>x. \<lparr>session = Some x\<rparr>) ss)),
      runCommandWithoutProcessingResponse =
        (\<lambda>t cc s h ps.
           (Inr \<lparr>commandCode = cc, sessionParams = s, rpHash = [], responseAuthArea = []\<rparr>, t)),
      GetCapabilityHandles =
        (\<lambda>h. if h = 0x81000000 then Inr [0x8100ffff] else Inr []),
      processResponse = (\<lambda>t ctx. (None, t))\<rparr>"

definition exPipelineNoTransient :: pipeline where
  "exPipelineNoTransient =
     exPipeline
       \<lparr>GetCapabilityHandles :=
          (\<lambda>h. if h = 0x81000000 then Inr [0x8100ffff] else Inl (TPMError 0x0000017a 0x01))\<rparr>"

definition exPipelineDown :: pipeline where
  "exPipelineDown =
     exPipeline
       \<lparr>runCommandWithoutProcessingResponse :=
          (\<lambda>t cc s h ps. (Inl (TransportError ''write: broken pipe''), t)),
        GetCapabilityHandles := (\<lambda>h. Inl (TransportError ''write: broken pipe''))\<rparr>"

text \<open>
  A pipeline for the rotation commands, authorized with an HMAC session whose key includes
  the auth value: the TPM answers with the HMAC under the session key followed by the
  secret that is in force after the command (the new auth value it was sent, or nothing),
  and the response is verified as the spec describes. \<open>exHmac\<close> stands for the keyed
  digest.
\<close>

definition exHmac :: "byte list \<Rightarrow> byte list \<Rightarrow> byte list" where
  "exHmac key msg = key @ [0xff] @ msg"

definition exAuthSession :: Session where
  "exAuthSession =
     \<lparr>Context = SessionRef 0, AuthValue = [0x6f, 0x6c, 0x64], SessionAttrs = 0x01,
      includeAuthValue = True\<rparr>"

definition exPipelineAuth :: pipeline where
  "exPipelineAuth =
     exPipeline
       \<lparr>runCommandWithoutProcessingResponse :=
          (\<lambda>t cc s h ps.
             (Inr \<lparr>commandCode = cc, sessionParams = s, rpHash = [0x44],
                   responseAuthArea =
                     [\<lparr>ar_nonceTPM = [0x33], ar_attrs = 0x01,
                       ar_hmac = exHmac ([0x01, 0x02] @ concat ps) [0x33, 0x11, 0x01, 0x44]\<rparr>]\<rparr>,
              t)),
        processResponse := processResponseHMAC exHmac\<rparr>"

section \<open>Basic facts\<close>

lemmas HandleType_defs =
  HandleTypePCR_def HandleTypeNVIndex_def HandleTypeHMACSession_def
  HandleTypePolicySession_def HandleTypePermanent_def HandleTypeTransient_def
  HandleTypePersistent_def

lemmas ex_defs = exState_def emptyState_def exObject_def exPersistent_def exNVOwner_def
  exNVPlatform_def exSession_def exName_def exPublic_def

lemma length_be32: "length (be32 v) = 4"
  by (simp add: be32_def)

lemma invalidate_resources: "invalidate t rc = Inr t' \<Longrightarrow> resources t' = resources t"
  by (cases rc) (auto split: sum.splits)

lemma evict_resources:
  "evictResourceContext t rc = Inr t' \<Longrightarrow> set (resources t') \<subseteq> set (resources t)"
  unfolding evictResourceContext_def
  by (auto split: if_splits option.splits sum.splits dest!: invalidate_resources
      simp: delete_key_def)

lemma add_noPermanent:
  "noPermanentTracked t \<Longrightarrow> addResourceContext t rc = Inr t' \<Longrightarrow> noPermanentTracked t'"
  unfolding addResourceContext_def noPermanentTracked_def
  by (auto split: if_splits option.splits sum.splits)

lemma evict_noPermanent:
  "noPermanentTracked t \<Longrightarrow> evictResourceContext t rc = Inr t' \<Longrightarrow> noPermanentTracked t'"
  unfolding noPermanentTracked_def list_all_iff
  using evict_resources by blast

section \<open>Permanent contexts\<close>

text \<open>
  C8: permanent-entity contexts are never stored in the resource table and never
  invalidated. \<open>addResourceContext\<close> returns without touching the table when it is given
  one, its \<open>invalidate\<close> changes nothing, evicting one is a panic, and its handle and
  name are functions of the value alone, the same in every state. The only two functions
  that write the table, \<open>addResourceContext\<close> and \<open>evictResourceContext\<close>, keep
  the table free of permanent contexts.
\<close>

theorem permanentContext_never_tracked_never_invalidated:
  "addResourceContext t (PermanentContext h) = Inr t
   \<and> invalidate t (PermanentContext h) = Inr t
   \<and> evictResourceContext t (PermanentContext h) = Inl PanicEvictPermanent
   \<and> Handle_of t' (PermanentContext h) = Inr h
   \<and> Name_of t' (PermanentContext h) = Inr (be32 h)
   \<and> (noPermanentTracked t \<and> addResourceContext t rc = Inr t2 \<longrightarrow> noPermanentTracked t2)
   \<and> (noPermanentTracked t \<and> evictResourceContext t rc' = Inr t3 \<longrightarrow> noPermanentTracked t3)"
  by (auto simp: addResourceContext_def evictResourceContext_def
      intro: add_noPermanent[unfolded addResourceContext_def]
             evict_noPermanent[unfolded evictResourceContext_def])

text \<open>
  The theorem at the context of the test: the owner hierarchy's permanent context, an
  untracked object context that is added and the tracked session that is evicted.
\<close>

theorem permanentContext_witness:
  "noPermanentTracked exState
   \<and> addResourceContext exState (PermanentContext 0x40000001) = Inr exState
   \<and> invalidate exState (PermanentContext 0x40000001) = Inr exState
   \<and> evictResourceContext exState (PermanentContext 0x40000001) = Inl PanicEvictPermanent
   \<and> Handle_of exState (PermanentContext 0x40000001) = Inr 0x40000001
   \<and> Name_of exState (PermanentContext 0x40000001) = Inr [0x40, 0, 0, 1]
   \<and> addResourceContext exState (ObjectRef 5)
       = Inr (exState\<lparr>resources := resources exState @ [(0, ObjectRef 5)]\<rparr>)
   \<and> noPermanentTracked (exState\<lparr>resources := resources exState @ [(0, ObjectRef 5)]\<rparr>)
   \<and> evictResourceContext exState (SessionRef 0)
       = Inr (exState\<lparr>resources := delete_key 0x03000000 (resources exState),
                      sessions := (sessions exState)(0 := invalidate_session exSession)\<rparr>)
   \<and> noPermanentTracked (exState\<lparr>resources := delete_key 0x03000000 (resources exState),
                      sessions := (sessions exState)(0 := invalidate_session exSession)\<rparr>)"
proof -
  have np: "noPermanentTracked exState"
    by (simp add: noPermanentTracked_def ex_defs)
  have a: "addResourceContext exState (ObjectRef 5)
       = Inr (exState\<lparr>resources := resources exState @ [(0, ObjectRef 5)]\<rparr>)"
    by (simp add: addResourceContext_def ex_defs HandleNull_def)
  have e: "evictResourceContext exState (SessionRef 0)
       = Inr (exState\<lparr>resources := delete_key 0x03000000 (resources exState),
                      sessions := (sessions exState)(0 := invalidate_session exSession)\<rparr>)"
    by (simp add: evictResourceContext_def checkResourceContextParam_def ex_defs HandleNull_def)
  have n: "Name_of exState (PermanentContext 0x40000001) = Inr [0x40, 0, 0, 1]"
    by (simp add: be32_def)
  from permanentContext_never_tracked_never_invalidated
         [where t = exState and h = "0x40000001" and t' = exState and rc = "ObjectRef 5"
            and ?t2.0 = "exState\<lparr>resources := resources exState @ [(0, ObjectRef 5)]\<rparr>"
            and rc' = "SessionRef 0"
            and ?t3.0 = "exState\<lparr>resources := delete_key 0x03000000 (resources exState),
                      sessions := (sessions exState)(0 := invalidate_session exSession)\<rparr>"]
       np a e n
  show ?thesis by simp
qed

section \<open>Invalidated contexts\<close>

lemma invalidate_object_name:
  "invalidate_object r = Inr r' \<Longrightarrow>
     o_handle r' = HandleNull \<and> o_name r' = be32 HandleNull @ drop 4 (o_name r)
     \<and> (o_name r' = be32 HandleNull) = (length (o_name r) = 4)"
  by (auto simp: invalidate_object_def PutUint32_def length_be32 split: if_splits)

lemma invalidate_nvIndex_name:
  "invalidate_nvIndex r = Inr r' \<Longrightarrow>
     nv_handle r' = HandleNull \<and> nv_name r' = be32 HandleNull @ drop 4 (nv_name r)
     \<and> (nv_name r' = be32 HandleNull) = (length (nv_name r) = 4)"
  by (auto simp: invalidate_nvIndex_def PutUint32_def length_be32 split: if_splits)

text \<open>
  C4: an evicted object or NV-index context has the null handle, its name is the big-endian
  encoding of the null handle, and it can no longer be used. \<open>invalidate\<close> writes the four
  bytes of the null handle over the start of the name it has and keeps the rest: at the
  transient key of the test, whose name has 34 bytes, the evicted context has the null
  handle and is refused as closed, but its name still has 34 bytes, the encoding of the
  null handle followed by the last 30 bytes of the old name.
\<close>

theorem invalidate_keeps_stale_name_bytes:
  "(case evictResourceContext exState (ObjectRef 0) of
      Inl p \<Rightarrow> False
    | Inr t' \<Rightarrow>
        Handle_of t' (ObjectRef 0) = Inr HandleNull
        \<and> Name_of exState (ObjectRef 0) = Inr ([0x00, 0x0b] @ replicate 32 0xaa)
        \<and> Name_of t' (ObjectRef 0) = Inr ([0x40, 0x00, 0x00, 0x07] @ replicate 30 0xaa)
        \<and> Name_of t' (ObjectRef 0) \<noteq> Inr (be32 HandleNull)
        \<and> checkResourceContextParam t' (ObjectRef 0) = Some (ErrorString ''resource has been closed''))"
  by (simp add: evictResourceContext_def checkResourceContextParam_def ex_defs HandleNull_def
      invalidate_object_def PutUint32_def be32_def delete_key_def)

section \<open>Wrapping handles\<close>

lemma Type_HandleNull: "Type HandleNull = HandleTypePermanent"
  by (simp add: Type_def HandleNull_def HandleTypePermanent_def)

lemma HandleType_distinct:
  "HandleTypePCR \<noteq> HandleTypeNVIndex" "HandleTypePCR \<noteq> HandleTypeHMACSession"
  "HandleTypePCR \<noteq> HandleTypePolicySession" "HandleTypePCR \<noteq> HandleTypePermanent"
  "HandleTypePCR \<noteq> HandleTypeTransient" "HandleTypePCR \<noteq> HandleTypePersistent"
  "HandleTypeNVIndex \<noteq> HandleTypeHMACSession" "HandleTypeNVIndex \<noteq> HandleTypePolicySession"
  "HandleTypeNVIndex \<noteq> HandleTypePermanent" "HandleTypeNVIndex \<noteq> HandleTypeTransient"
  "HandleTypeNVIndex \<noteq> HandleTypePersistent"
  "HandleTypeHMACSession \<noteq> HandleTypePolicySession" "HandleTypeHMACSession \<noteq> HandleTypePermanent"
  "HandleTypeHMACSession \<noteq> HandleTypeTransient" "HandleTypeHMACSession \<noteq> HandleTypePersistent"
  "HandleTypePolicySession \<noteq> HandleTypePermanent" "HandleTypePolicySession \<noteq> HandleTypeTransient"
  "HandleTypePolicySession \<noteq> HandleTypePersistent"
  "HandleTypePermanent \<noteq> HandleTypeTransient" "HandleTypePermanent \<noteq> HandleTypePersistent"
  "HandleTypeTransient \<noteq> HandleTypePersistent"
  by (simp_all add: HandleType_defs)

lemma wrapByType_PCR:
  "Type h = HandleTypePCR \<Longrightarrow>
   wrapByType nvq objq t h = ((NilContext, Some (ErrorString ''cannot wrap a PCR handle'')), t)"
  by (simp add: wrapByType_def)

lemma wrapByType_NV:
  "Type h = HandleTypeNVIndex \<Longrightarrow> wrapByType nvq objq t h = makeNVIndexContext nvq t h"
  by (simp add: wrapByType_def HandleType_distinct[symmetric])

lemma wrapByType_session:
  "Type h = HandleTypeHMACSession \<or> Type h = HandleTypePolicySession \<Longrightarrow>
   wrapByType nvq objq t h
     = ((NilContext, Some (ErrorString ''cannot wrap the handle of an existing session'')), t)"
  by (auto simp add: wrapByType_def HandleType_distinct HandleType_distinct[symmetric])

lemma wrapByType_permanent:
  "Type h = HandleTypePermanent \<Longrightarrow> wrapByType nvq objq t h = ((PermanentContext h, None), t)"
  by (simp add: wrapByType_def HandleType_distinct HandleType_distinct[symmetric])

lemma wrapByType_object:
  "Type h = HandleTypeTransient \<or> Type h = HandleTypePersistent \<Longrightarrow>
   wrapByType nvq objq t h = makeObjectContext objq t h"
  by (auto simp add: wrapByType_def HandleType_distinct HandleType_distinct[symmetric])

lemma wrapByType_other:
  "Type h \<notin> {HandleTypePCR, HandleTypeNVIndex, HandleTypeHMACSession, HandleTypePolicySession,
              HandleTypePermanent, HandleTypeTransient, HandleTypePersistent} \<Longrightarrow>
   wrapByType nvq objq t h = ((NilContext, None), t)"
  by (simp add: wrapByType_def)

lemma not_permanent_not_null: "Type h \<noteq> HandleTypePermanent \<Longrightarrow> h \<noteq> HandleNull"
  using Type_HandleNull by auto




text \<open>
  C7: \<open>WrapHandle\<close> on a handle that is not tracked classifies by handle type. A PCR
  handle and the handle of an HMAC or policy session are rejected with an error and the
  state is unchanged. A permanent handle always succeeds, with the permanent context of the
  handle, and the table is unchanged. An NV index is queried with \<open>nvReadPublic\<close>, a
  transient or persistent object with \<open>readPublic\<close>: when the query succeeds the
  handle, public area and name go into a new context, which is stored in the table under
  the handle and returned; when it fails the error is returned.
\<close>

theorem WrapHandle_classifies_by_type:
  assumes "map_of (resources t) h = None"
  shows "(Type h = HandleTypePCR \<longrightarrow>
            WrapHandle nvReadPublic readPublic t h
              = Inr ((NilContext, Some (ErrorString ''cannot wrap a PCR handle'')), t))
       \<and> (Type h = HandleTypeHMACSession \<or> Type h = HandleTypePolicySession \<longrightarrow>
            WrapHandle nvReadPublic readPublic t h
              = Inr ((NilContext,
                      Some (ErrorString ''cannot wrap the handle of an existing session'')), t))
       \<and> (Type h = HandleTypePermanent \<longrightarrow>
            WrapHandle nvReadPublic readPublic t h = Inr ((PermanentContext h, None), t))
       \<and> (Type h = HandleTypeNVIndex \<longrightarrow>
            WrapHandle nvReadPublic readPublic t h
              = (case nvReadPublic h of
                   Inl err \<Rightarrow> Inr ((NilContext, Some (wrapError h err)), t)
                 | Inr (pub, name) \<Rightarrow>
                     Inr ((NVIndexRef (nextRef t), None),
                          t\<lparr>resources := resources t @ [(h, NVIndexRef (nextRef t))],
                            nvIndices := (nvIndices t)
                              (nextRef t := \<lparr>nv_handle = h, nv_public = pub, nv_name = name\<rparr>),
                            nextRef := Suc (nextRef t)\<rparr>)))
       \<and> (Type h = HandleTypeTransient \<or> Type h = HandleTypePersistent \<longrightarrow>
            WrapHandle nvReadPublic readPublic t h
              = (case readPublic h of
                   Inl err \<Rightarrow> Inr ((NilContext, Some (wrapError h err)), t)
                 | Inr (pub, name) \<Rightarrow>
                     Inr ((ObjectRef (nextRef t), None),
                          t\<lparr>resources := resources t @ [(h, ObjectRef (nextRef t))],
                            objects := (objects t)
                              (nextRef t := \<lparr>o_handle = h, o_public = pub, o_name = name\<rparr>),
                            nextRef := Suc (nextRef t)\<rparr>)))"
proof -
  have pcr: "Type h = HandleTypePCR \<longrightarrow>
            WrapHandle nvReadPublic readPublic t h
              = Inr ((NilContext, Some (ErrorString ''cannot wrap a PCR handle'')), t)"
    using assms by (simp add: WrapHandle_def wrapByType_PCR)
  have sess: "Type h = HandleTypeHMACSession \<or> Type h = HandleTypePolicySession \<longrightarrow>
            WrapHandle nvReadPublic readPublic t h
              = Inr ((NilContext,
                      Some (ErrorString ''cannot wrap the handle of an existing session'')), t)"
    using assms by (auto simp add: WrapHandle_def wrapByType_session)
  have perm: "Type h = HandleTypePermanent \<longrightarrow>
            WrapHandle nvReadPublic readPublic t h = Inr ((PermanentContext h, None), t)"
    using assms by (simp add: WrapHandle_def wrapByType_permanent addResourceContext_def)
  have nv: "Type h = HandleTypeNVIndex \<longrightarrow>
            WrapHandle nvReadPublic readPublic t h
              = (case nvReadPublic h of
                   Inl err \<Rightarrow> Inr ((NilContext, Some (wrapError h err)), t)
                 | Inr (pub, name) \<Rightarrow>
                     Inr ((NVIndexRef (nextRef t), None),
                          t\<lparr>resources := resources t @ [(h, NVIndexRef (nextRef t))],
                            nvIndices := (nvIndices t)
                              (nextRef t := \<lparr>nv_handle = h, nv_public = pub, nv_name = name\<rparr>),
                            nextRef := Suc (nextRef t)\<rparr>))"
  proof
    assume ty: "Type h = HandleTypeNVIndex"
    then have "h \<noteq> HandleNull"
      using not_permanent_not_null HandleType_distinct by metis
    with ty assms show "WrapHandle nvReadPublic readPublic t h
              = (case nvReadPublic h of
                   Inl err \<Rightarrow> Inr ((NilContext, Some (wrapError h err)), t)
                 | Inr (pub, name) \<Rightarrow>
                     Inr ((NVIndexRef (nextRef t), None),
                          t\<lparr>resources := resources t @ [(h, NVIndexRef (nextRef t))],
                            nvIndices := (nvIndices t)
                              (nextRef t := \<lparr>nv_handle = h, nv_public = pub, nv_name = name\<rparr>),
                            nextRef := Suc (nextRef t)\<rparr>))"
      by (simp add: WrapHandle_def wrapByType_NV makeNVIndexContext_def addResourceContext_def
          split: sum.splits prod.splits)
  qed
  have obj: "Type h = HandleTypeTransient \<or> Type h = HandleTypePersistent \<longrightarrow>
            WrapHandle nvReadPublic readPublic t h
              = (case readPublic h of
                   Inl err \<Rightarrow> Inr ((NilContext, Some (wrapError h err)), t)
                 | Inr (pub, name) \<Rightarrow>
                     Inr ((ObjectRef (nextRef t), None),
                          t\<lparr>resources := resources t @ [(h, ObjectRef (nextRef t))],
                            objects := (objects t)
                              (nextRef t := \<lparr>o_handle = h, o_public = pub, o_name = name\<rparr>),
                            nextRef := Suc (nextRef t)\<rparr>))"
  proof
    assume ty: "Type h = HandleTypeTransient \<or> Type h = HandleTypePersistent"
    then have "h \<noteq> HandleNull"
      using not_permanent_not_null HandleType_distinct by metis
    with ty assms show "WrapHandle nvReadPublic readPublic t h
              = (case readPublic h of
                   Inl err \<Rightarrow> Inr ((NilContext, Some (wrapError h err)), t)
                 | Inr (pub, name) \<Rightarrow>
                     Inr ((ObjectRef (nextRef t), None),
                          t\<lparr>resources := resources t @ [(h, ObjectRef (nextRef t))],
                            objects := (objects t)
                              (nextRef t := \<lparr>o_handle = h, o_public = pub, o_name = name\<rparr>),
                            nextRef := Suc (nextRef t)\<rparr>))"
      by (simp add: WrapHandle_def wrapByType_object makeObjectContext_def addResourceContext_def
          split: sum.splits prod.splits)
  qed
  from pcr sess perm nv obj show ?thesis by blast
qed


text \<open>The theorem at one handle of each kind, in the context of the test.\<close>

theorem WrapHandle_classifies_witness:
  "map_of (resources exState) 0x00000007 = None
   \<and> Type 0x00000007 = HandleTypePCR
   \<and> WrapHandle exNvReadPublic exReadPublic exState 0x00000007
       = Inr ((NilContext, Some (ErrorString ''cannot wrap a PCR handle'')), exState)
   \<and> Type 0x02000000 = HandleTypeHMACSession
   \<and> WrapHandle exNvReadPublic exReadPublic exState 0x02000000
       = Inr ((NilContext, Some (ErrorString ''cannot wrap the handle of an existing session'')),
              exState)
   \<and> Type 0x40000001 = HandleTypePermanent
   \<and> WrapHandle exNvReadPublic exReadPublic exState 0x40000001
       = Inr ((PermanentContext 0x40000001, None), exState)
   \<and> Type 0x01000001 = HandleTypeNVIndex
   \<and> WrapHandle exNvReadPublic exReadPublic exState 0x01000001
       = Inr ((NVIndexRef 2, None),
              exState\<lparr>resources := resources exState @ [(0x01000001, NVIndexRef 2)],
                nvIndices := (nvIndices exState)
                  (2 := \<lparr>nv_handle = 0x01000001,
                         nv_public = \<lparr>Index = 0x01000001, NameAlg = 0x000b, Attrs = 0x00040004,
                                      Size = 8\<rparr>,
                         nv_name = exName\<rparr>),
                nextRef := 3\<rparr>)
   \<and> Type 0x80000001 = HandleTypeTransient
   \<and> WrapHandle exNvReadPublic exReadPublic exState 0x80000001
       = Inr ((ObjectRef 2, None),
              exState\<lparr>resources := resources exState @ [(0x80000001, ObjectRef 2)],
                objects := (objects exState)
                  (2 := \<lparr>o_handle = 0x80000001, o_public = exPublic, o_name = exName\<rparr>),
                nextRef := 3\<rparr>)"
proof -
  have u: "map_of (resources exState) 0x00000007 = None"
    "map_of (resources exState) 0x02000000 = None"
    "map_of (resources exState) 0x40000001 = None"
    "map_of (resources exState) 0x01000001 = None"
    "map_of (resources exState) 0x80000001 = None"
    by (simp_all add: ex_defs)
  have ty: "Type 0x00000007 = HandleTypePCR" "Type 0x02000000 = HandleTypeHMACSession"
    "Type 0x40000001 = HandleTypePermanent" "Type 0x01000001 = HandleTypeNVIndex"
    "Type 0x80000001 = HandleTypeTransient"
    by (simp_all add: Type_def HandleType_defs)
  have q: "exNvReadPublic 0x01000001
             = Inr (\<lparr>Index = 0x01000001, NameAlg = 0x000b, Attrs = 0x00040004, Size = 8\<rparr>, exName)"
    "exReadPublic 0x80000001 = Inr (exPublic, exName)"
    by (simp_all add: exNvReadPublic_def exReadPublic_def)
  have n: "nextRef exState = 2"
    by (simp add: ex_defs)
  from WrapHandle_classifies_by_type[OF u(1), of exNvReadPublic exReadPublic]
       WrapHandle_classifies_by_type[OF u(2), of exNvReadPublic exReadPublic]
       WrapHandle_classifies_by_type[OF u(3), of exNvReadPublic exReadPublic]
       WrapHandle_classifies_by_type[OF u(4), of exNvReadPublic exReadPublic]
       WrapHandle_classifies_by_type[OF u(5), of exNvReadPublic exReadPublic]
       u ty q n
  show ?thesis by simp
qed


lemma wrapError_eq:
  "wrapError h e =
     (if (\<exists>cmd. e = TPMWarning cmd WarningReferenceH0)
         \<or> (\<exists>cmd i. e = TPMHandleError cmd ErrorHandle i)
      then ResourceUnavailableError h else e)"
  by (cases e) auto

lemma WrapHandle_query_error:
  assumes "map_of (resources t) h = None"
    and "wrapByType nvq objq t h = ((rc, Some e), t1)"
  shows "WrapHandle nvq objq t h = Inr ((NilContext, Some (wrapError h e)), t1)"
  using assms by (simp add: WrapHandle_def)

text \<open>
  C6: when the query of \<open>WrapHandle\<close> for an NV index or an object fails with a
  \<open>TPMWarning\<close> of code \<open>WarningReferenceH0\<close> or a \<open>TPMHandleError\<close> of code
  \<open>ErrorHandle\<close>, \<open>WrapHandle\<close> returns \<open>ResourceUnavailableError\<close> with the
  handle; every other error of the query is returned as it is. The state is unchanged.
  \<open>ResourceUnavailableError\<close> is none of the transport, response or TPM error values.
\<close>

theorem WrapHandle_resource_unavailable:
  assumes "map_of (resources t) h = None"
  shows "(Type h = HandleTypeNVIndex \<and> nvReadPublic h = Inl e \<longrightarrow>
            WrapHandle nvReadPublic readPublic t h
              = Inr ((NilContext,
                      Some (if (\<exists>cmd. e = TPMWarning cmd WarningReferenceH0)
                               \<or> (\<exists>cmd i. e = TPMHandleError cmd ErrorHandle i)
                            then ResourceUnavailableError h else e)), t))
       \<and> ((Type h = HandleTypeTransient \<or> Type h = HandleTypePersistent) \<and> readPublic h = Inl e' \<longrightarrow>
            WrapHandle nvReadPublic readPublic t h
              = Inr ((NilContext,
                      Some (if (\<exists>cmd. e' = TPMWarning cmd WarningReferenceH0)
                               \<or> (\<exists>cmd i. e' = TPMHandleError cmd ErrorHandle i)
                            then ResourceUnavailableError h else e')), t))
       \<and> ResourceUnavailableError h \<noteq> TransportError msg
       \<and> ResourceUnavailableError h \<noteq> InvalidResponseError cc msg
       \<and> ResourceUnavailableError h \<noteq> TPMWarning cc wc
       \<and> ResourceUnavailableError h \<noteq> TPMHandleError cc wc i"
proof -
  have nv: "Type h = HandleTypeNVIndex \<and> nvReadPublic h = Inl e \<longrightarrow>
            WrapHandle nvReadPublic readPublic t h = Inr ((NilContext, Some (wrapError h e)), t)"
    using assms
    by (auto simp: wrapByType_NV makeNVIndexContext_def intro!: WrapHandle_query_error)
  have obj: "(Type h = HandleTypeTransient \<or> Type h = HandleTypePersistent) \<and> readPublic h = Inl e' \<longrightarrow>
            WrapHandle nvReadPublic readPublic t h = Inr ((NilContext, Some (wrapError h e')), t)"
    using assms
    by (auto simp: wrapByType_object makeObjectContext_def intro!: WrapHandle_query_error)
  from nv obj show ?thesis
    unfolding wrapError_eq by simp
qed

text \<open>
  The theorem at an NV index reported missing by a handle error, an object reported
  missing by a warning, and an object whose query fails in the transport.
\<close>

theorem WrapHandle_resource_unavailable_witness:
  "map_of (resources exState) 0x01000002 = None
   \<and> exNvReadPublic 0x01000002 = Inl (TPMHandleError 0x00000169 ErrorHandle 1)
   \<and> WrapHandle exNvReadPublic exReadPublic exState 0x01000002
       = Inr ((NilContext, Some (ResourceUnavailableError 0x01000002)), exState)
   \<and> map_of (resources exState) 0x80000002 = None
   \<and> exReadPublic 0x80000002 = Inl (TPMWarning 0x00000173 WarningReferenceH0)
   \<and> WrapHandle exNvReadPublic exReadPublic exState 0x80000002
       = Inr ((NilContext, Some (ResourceUnavailableError 0x80000002)), exState)
   \<and> map_of (resources exState) 0x81000003 = None
   \<and> exReadPublic 0x81000003 = Inl (TransportError ''EOF'')
   \<and> WrapHandle exNvReadPublic exReadPublic exState 0x81000003
       = Inr ((NilContext, Some (TransportError ''EOF'')), exState)"
proof -
  have u: "map_of (resources exState) 0x01000002 = None"
    "map_of (resources exState) 0x80000002 = None"
    "map_of (resources exState) 0x81000003 = None"
    by (simp_all add: ex_defs)
  have ty: "Type 0x01000002 = HandleTypeNVIndex" "Type 0x80000002 = HandleTypeTransient"
    "Type 0x81000003 = HandleTypePersistent"
    by (simp_all add: Type_def HandleType_defs)
  have q: "exNvReadPublic 0x01000002 = Inl (TPMHandleError 0x00000169 ErrorHandle 1)"
    "exReadPublic 0x80000002 = Inl (TPMWarning 0x00000173 WarningReferenceH0)"
    "exReadPublic 0x81000003 = Inl (TransportError ''EOF'')"
    by (simp_all add: exNvReadPublic_def exReadPublic_def)
  from WrapHandle_resource_unavailable[OF u(1), of exNvReadPublic
         "TPMHandleError 0x00000169 ErrorHandle 1" exReadPublic]
       WrapHandle_resource_unavailable[OF u(2), of exNvReadPublic _ exReadPublic
         "TPMWarning 0x00000173 WarningReferenceH0"]
       WrapHandle_resource_unavailable[OF u(3), of exNvReadPublic _ exReadPublic
         "TransportError ''EOF''"]
       u ty q
  show ?thesis by simp
qed

lemma WrapHandle_tracked:
  "map_of (resources t) h = Some rc \<Longrightarrow> WrapHandle nvq objq t h = Inr ((rc, None), t)"
  by (simp add: WrapHandle_def)

lemma add_after_tracked:
  "addResourceContext t1 rc = Inr t2 \<Longrightarrow> \<not> isPermanent rc \<Longrightarrow> Handle_of t1 rc = Inr h
   \<Longrightarrow> map_of (resources t2) h = Some rc"
  by (auto simp: addResourceContext_def map_add_def split: if_splits option.splits)

lemma WrapHandle_success_cases:
  assumes "map_of (resources t) h = None"
    and "WrapHandle nvq objq t h = Inr ((rc, None), t')"
  shows "(Type h = HandleTypePermanent \<and> rc = PermanentContext h \<and> t' = t)
         \<or> map_of (resources t') h = Some rc"
proof -
  consider (pcr) "Type h = HandleTypePCR"
    | (nv) "Type h = HandleTypeNVIndex"
    | (sess) "Type h = HandleTypeHMACSession \<or> Type h = HandleTypePolicySession"
    | (perm) "Type h = HandleTypePermanent"
    | (obj) "Type h = HandleTypeTransient \<or> Type h = HandleTypePersistent"
    | (other) "Type h \<notin> {HandleTypePCR, HandleTypeNVIndex, HandleTypeHMACSession,
                 HandleTypePolicySession, HandleTypePermanent, HandleTypeTransient,
                 HandleTypePersistent}"
    by auto
  then show ?thesis
  proof cases
    case pcr
    with assms show ?thesis by (simp add: WrapHandle_def wrapByType_PCR)
  next
    case nv
    with assms show ?thesis
      by (auto simp: WrapHandle_def wrapByType_NV makeNVIndexContext_def
          split: sum.splits prod.splits intro: add_after_tracked)
  next
    case sess
    with assms show ?thesis by (simp add: WrapHandle_def wrapByType_session)
  next
    case perm
    with assms show ?thesis
      by (simp add: WrapHandle_def wrapByType_permanent addResourceContext_def)
  next
    case obj
    with assms show ?thesis
      by (auto simp: WrapHandle_def wrapByType_object makeObjectContext_def
          split: sum.splits prod.splits intro: add_after_tracked)
  next
    case other
    with assms show ?thesis
      by (simp add: WrapHandle_def wrapByType_other addResourceContext_def)
  qed
qed

text \<open>
  C5: \<open>WrapHandle\<close> on a tracked handle returns the context the table holds for it and
  leaves the state as it is; and after any successful \<open>WrapHandle\<close> of a handle, a
  second \<open>WrapHandle\<close> of the same handle returns the same context and changes
  nothing, whatever the TPM answers then: no second context is made for the handle.
\<close>

theorem WrapHandle_idempotent:
  "(map_of (resources t) h = Some rc \<longrightarrow>
      WrapHandle nvReadPublic readPublic t h = Inr ((rc, None), t))
   \<and> (WrapHandle nvReadPublic readPublic t h = Inr ((rc', None), t') \<longrightarrow>
      WrapHandle nvReadPublic' readPublic' t' h = Inr ((rc', None), t'))"
proof (intro conjI impI)
  assume "map_of (resources t) h = Some rc"
  then show "WrapHandle nvReadPublic readPublic t h = Inr ((rc, None), t)"
    by (rule WrapHandle_tracked)
next
  assume w: "WrapHandle nvReadPublic readPublic t h = Inr ((rc', None), t')"
  show "WrapHandle nvReadPublic' readPublic' t' h = Inr ((rc', None), t')"
  proof (cases "map_of (resources t) h")
    case (Some rc0)
    with w have "rc' = rc0" "t' = t" by (simp_all add: WrapHandle_def)
    with Some show ?thesis by (simp add: WrapHandle_tracked)
  next
    case None
    from WrapHandle_success_cases[OF None w]
    show ?thesis
    proof
      assume p: "Type h = HandleTypePermanent \<and> rc' = PermanentContext h \<and> t' = t"
      with None show ?thesis
        by (simp add: WrapHandle_def wrapByType_permanent addResourceContext_def)
    next
      assume "map_of (resources t') h = Some rc'"
      then show ?thesis by (rule WrapHandle_tracked)
    qed
  qed
qed

text \<open>
  The theorem at the tracked transient key of the test, and at a transient handle that is
  wrapped for the first time and then again.
\<close>

theorem WrapHandle_idempotent_witness:
  "map_of (resources exState) 0x80000000 = Some (ObjectRef 0)
   \<and> WrapHandle exNvReadPublic exReadPublic exState 0x80000000 = Inr ((ObjectRef 0, None), exState)
   \<and> WrapHandle exNvReadPublic exReadPublic exState 0x80000001
       = Inr ((ObjectRef 2, None),
              exState\<lparr>resources := resources exState @ [(0x80000001, ObjectRef 2)],
                objects := (objects exState)
                  (2 := \<lparr>o_handle = 0x80000001, o_public = exPublic, o_name = exName\<rparr>),
                nextRef := 3\<rparr>)
   \<and> WrapHandle exNvReadPublic exReadPublic
        (exState\<lparr>resources := resources exState @ [(0x80000001, ObjectRef 2)],
                objects := (objects exState)
                  (2 := \<lparr>o_handle = 0x80000001, o_public = exPublic, o_name = exName\<rparr>),
                nextRef := 3\<rparr>) 0x80000001
       = Inr ((ObjectRef 2, None),
              exState\<lparr>resources := resources exState @ [(0x80000001, ObjectRef 2)],
                objects := (objects exState)
                  (2 := \<lparr>o_handle = 0x80000001, o_public = exPublic, o_name = exName\<rparr>),
                nextRef := 3\<rparr>)"
proof -
  have tr: "map_of (resources exState) 0x80000000 = Some (ObjectRef 0)"
    by (simp add: ex_defs)
  have u: "map_of (resources exState) 0x80000001 = None"
    by (simp add: ex_defs)
  have ty: "Type 0x80000001 = HandleTypeTransient"
    by (simp add: Type_def HandleType_defs)
  have nn: "(0x80000001 :: Handle) \<noteq> HandleNull"
    by (simp add: HandleNull_def)
  have n: "nextRef exState = 2"
    by (simp add: ex_defs)
  have w: "WrapHandle exNvReadPublic exReadPublic exState 0x80000001
       = Inr ((ObjectRef 2, None),
              exState\<lparr>resources := resources exState @ [(0x80000001, ObjectRef 2)],
                objects := (objects exState)
                  (2 := \<lparr>o_handle = 0x80000001, o_public = exPublic, o_name = exName\<rparr>),
                nextRef := 3\<rparr>)"
    using u ty nn n
    by (simp add: WrapHandle_def wrapByType_object makeObjectContext_def exReadPublic_def
        addResourceContext_def)
  from WrapHandle_idempotent[of exState "0x80000000" "ObjectRef 0" exNvReadPublic exReadPublic]
       WrapHandle_idempotent[of exState "0x80000001" _ exNvReadPublic exReadPublic "ObjectRef 2"
         "exState\<lparr>resources := resources exState @ [(0x80000001, ObjectRef 2)],
                objects := (objects exState)
                  (2 := \<lparr>o_handle = 0x80000001, o_public = exPublic, o_name = exName\<rparr>),
                nextRef := 3\<rparr>" exNvReadPublic exReadPublic]
       tr w
  show ?thesis by simp
qed

section \<open>The sweep of Clear\<close>

lemma sameContext_refl: "sameContext t t rc"
  by (cases rc) simp_all

lemma sameContext_trans:
  "sameContext t t1 rc \<Longrightarrow> sameContext t1 t2 rc \<Longrightarrow> sameContext t t2 rc"
  by (cases rc) simp_all

lemma sameContext_Handle: "sameContext t t' rc \<Longrightarrow> Handle_of t' rc = Handle_of t rc"
  by (cases rc) simp_all

lemma sameContext_Name: "sameContext t t' rc \<Longrightarrow> Name_of t' rc = Name_of t rc"
  by (cases rc) simp_all

lemma sameContext_continues:
  "sameContext t t' rc \<Longrightarrow> sweepContinues H t' rc = sweepContinues H t rc"
  by (cases rc) simp_all

lemma sameContext_consistent:
  "sameContext t t' (snd e) \<Longrightarrow> entryConsistent t' e = entryConsistent t e"
  by (cases e, cases "snd e") auto

lemma entryConsistent_Handle:
  "entryConsistent t (h, rc) \<Longrightarrow>
     Handle_of t rc = Inr h \<and> h \<noteq> HandleNull \<and> \<not> isPermanent rc \<and> rc \<noteq> NilContext"
  by (cases rc) auto

lemma consistent_entry:
  "tableConsistent t \<Longrightarrow> (k, rc) \<in> set (resources t) \<Longrightarrow> entryConsistent t (k, rc)"
  by (auto simp: tableConsistent_def list_all_iff)

lemma consistent_lookup:
  "tableConsistent t \<Longrightarrow> (k, rc) \<in> set (resources t) \<Longrightarrow> map_of (resources t) k = Some rc"
  by (simp add: tableConsistent_def)

lemma consistent_inj:
  assumes "tableConsistent t" "(k, rc) \<in> set (resources t)" "(k', rc) \<in> set (resources t)"
  shows "k' = k"
  using consistent_entry[OF assms(1,2)] consistent_entry[OF assms(1,3)]
  by (auto dest!: entryConsistent_Handle)

lemma invalidate_frame:
  "invalidate t rc = Inr t' \<Longrightarrow> rc' \<noteq> rc \<Longrightarrow> sameContext t t' rc'"
  by (cases rc; cases rc') (auto split: sum.splits)

lemma invalidate_consistent_entry:
  assumes "entryConsistent t (k, rc)"
  shows "\<exists>t'. invalidate t rc = Inr t' \<and> Handle_of t' rc = Inr HandleNull"
  using assms
  by (cases rc)
     (auto simp: invalidate_object_def invalidate_nvIndex_def invalidate_session_def PutUint32_def)

lemma sameContext_resources_update:
  "sameContext (t\<lparr>resources := xs\<rparr>) t' rc = sameContext t t' rc"
  by (cases rc) simp_all

lemma entryConsistent_resources_update:
  "entryConsistent (t\<lparr>resources := xs\<rparr>) e = entryConsistent t e"
  by (cases e, cases "snd e") auto

lemma evict_entry:
  assumes tc: "tableConsistent t" and mem: "(k, rc) \<in> set (resources t)"
  shows "\<exists>t1. evictResourceContext t rc = Inr t1
              \<and> resources t1 = delete_key k (resources t)
              \<and> Handle_of t1 rc = Inr HandleNull
              \<and> (\<forall>rc'. rc' \<noteq> rc \<longrightarrow> sameContext t t1 rc')
              \<and> tableConsistent t1"
proof -
  let ?t0 = "t\<lparr>resources := delete_key k (resources t)\<rparr>"
  have ec: "entryConsistent t (k, rc)" by (rule consistent_entry[OF tc mem])
  then have h: "Handle_of t rc = Inr k" "k \<noteq> HandleNull" "\<not> isPermanent rc" "rc \<noteq> NilContext"
    by (auto dest: entryConsistent_Handle)
  have chk: "checkResourceContextParam t rc = None"
    using h consistent_lookup[OF tc mem] by (simp add: checkResourceContextParam_def)
  have "entryConsistent ?t0 (k, rc)"
    using ec by (simp add: entryConsistent_resources_update)
  from invalidate_consistent_entry[OF this] obtain t1
    where inv: "invalidate ?t0 rc = Inr t1" and hn: "Handle_of t1 rc = Inr HandleNull"
    by blast
  have ev: "evictResourceContext t rc = Inr t1"
    using h chk inv by (simp add: evictResourceContext_def)
  have res: "resources t1 = delete_key k (resources t)"
    using invalidate_resources[OF inv] by simp
  have fr: "\<forall>rc'. rc' \<noteq> rc \<longrightarrow> sameContext t t1 rc'"
    using invalidate_frame[OF inv] by (simp add: sameContext_resources_update)
  have "distinct (map fst (resources t1))"
    using tc by (simp add: res delete_key_def tableConsistent_def distinct_map_filter)
  moreover have "list_all (entryConsistent t1) (resources t1)"
    unfolding list_all_iff res
  proof
    fix e assume e: "e \<in> set (delete_key k (resources t))"
    then have m: "(fst e, snd e) \<in> set (resources t)" and ne: "fst e \<noteq> k"
      by (auto simp: delete_key_def)
    have "snd e \<noteq> rc"
      using consistent_inj[OF tc mem, of "fst e"] m ne by auto
    then have "sameContext t t1 (snd e)" using fr by blast
    then show "entryConsistent t1 e"
      using consistent_entry[OF tc m] by (simp add: sameContext_consistent)
  qed
  ultimately have "tableConsistent t1" by (simp add: tableConsistent_def)
  with ev res hn fr show ?thesis by blast
qed


lemma sweep_effect:
  assumes "tableConsistent t" and "set es \<subseteq> set (resources t)" and "distinct (map fst es)"
  shows "\<exists>t'. sweep H es t = Inr t'
           \<and> tableConsistent t'
           \<and> resources t'
               = filter (\<lambda>e. \<not> (e \<in> set es \<and> \<not> sweepContinues H t (snd e))) (resources t)
           \<and> (\<forall>e. e \<in> set es \<and> \<not> sweepContinues H t (snd e)
                  \<longrightarrow> Handle_of t' (snd e) = Inr HandleNull)
           \<and> (\<forall>rc. rc \<notin> snd ` {e \<in> set es. \<not> sweepContinues H t (snd e)}
                  \<longrightarrow> sameContext t t' rc)"
  using assms
proof (induction es arbitrary: t)
  case Nil
  have "\<forall>rc. sameContext t t rc" by (intro allI) (rule sameContext_refl)
  with Nil show ?case by simp
next
  case (Cons a es)
  obtain k rc where a: "a = (k, rc)" by (cases a)
  from Cons.prems a have mem: "(k, rc) \<in> set (resources t)"
    and sub: "set es \<subseteq> set (resources t)"
    and dist: "distinct (map fst es)" and knew: "k \<notin> fst ` set es"
    by auto
  have tc: "tableConsistent t" by (rule Cons.prems(1))
  have look: "map_of (resources t) k = Some rc"
    by (rule consistent_lookup[OF tc mem])
  show ?case
  proof (cases "sweepContinues H t rc")
    case True
    from Cons.IH[OF tc sub dist] obtain t' where
      sw: "sweep H es t = Inr t'" and tc': "tableConsistent t'"
      and res: "resources t'
               = filter (\<lambda>e. \<not> (e \<in> set es \<and> \<not> sweepContinues H t (snd e))) (resources t)"
      and ev: "\<forall>e. e \<in> set es \<and> \<not> sweepContinues H t (snd e)
                  \<longrightarrow> Handle_of t' (snd e) = Inr HandleNull"
      and fr: "\<forall>rc. rc \<notin> snd ` {e \<in> set es. \<not> sweepContinues H t (snd e)}
                  \<longrightarrow> sameContext t t' rc"
      by blast
    have same: "\<And>e. (e \<in> set (a # es) \<and> \<not> sweepContinues H t (snd e))
                   = (e \<in> set es \<and> \<not> sweepContinues H t (snd e))"
      using True a by auto
    have "sweep H (a # es) t = Inr t'"
      using sw look True a by simp
    with tc' res ev fr show ?thesis
      unfolding same by blast
  next
    case False
    from evict_entry[OF tc mem] obtain t1 where
      ev1: "evictResourceContext t rc = Inr t1"
      and res1: "resources t1 = delete_key k (resources t)"
      and hn1: "Handle_of t1 rc = Inr HandleNull"
      and fr1: "\<forall>rc'. rc' \<noteq> rc \<longrightarrow> sameContext t t1 rc'"
      and tc1: "tableConsistent t1"
      by blast
    have sub1: "set es \<subseteq> set (resources t1)"
      using sub knew by (force simp: res1 delete_key_def)
    have other: "snd e \<noteq> rc" if "e \<in> set (resources t)" "fst e \<noteq> k" for e
      using consistent_inj[OF tc mem, of "fst e"] that by auto
    have cont1: "sweepContinues H t1 (snd e) = sweepContinues H t (snd e)"
      if "e \<in> set (resources t)" "fst e \<noteq> k" for e
      using fr1 other[OF that] by (simp add: sameContext_continues)
    have cont_es: "sweepContinues H t1 (snd e) = sweepContinues H t (snd e)" if "e \<in> set es" for e
      using cont1[of e] that sub knew by force
    from Cons.IH[OF tc1 sub1 dist] obtain t' where
      sw: "sweep H es t1 = Inr t'" and tc': "tableConsistent t'"
      and res: "resources t'
               = filter (\<lambda>e. \<not> (e \<in> set es \<and> \<not> sweepContinues H t1 (snd e))) (resources t1)"
      and ev: "\<forall>e. e \<in> set es \<and> \<not> sweepContinues H t1 (snd e)
                  \<longrightarrow> Handle_of t' (snd e) = Inr HandleNull"
      and fr: "\<forall>rc. rc \<notin> snd ` {e \<in> set es. \<not> sweepContinues H t1 (snd e)}
                  \<longrightarrow> sameContext t1 t' rc"
      by blast
    have run: "sweep H (a # es) t = Inr t'"
      using sw look False a ev1 by simp
    have only: "e = (k, rc)" if "e \<in> set (resources t)" "fst e = k" for e
    proof -
      have "map_of (resources t) (fst e) = Some (snd e)"
        using that(1) tc by (simp add: tableConsistent_def)
      with consistent_lookup[OF tc mem] that(2) show ?thesis
        by (cases e) simp
    qed
    have res': "resources t'
               = filter (\<lambda>e. \<not> (e \<in> set (a # es) \<and> \<not> sweepContinues H t (snd e))) (resources t)"
      unfolding res res1 delete_key_def filter_filter
    proof (rule filter_cong[OF refl])
      fix e assume e: "e \<in> set (resources t)"
      show "(fst e \<noteq> k \<and> \<not> (e \<in> set es \<and> \<not> sweepContinues H t1 (snd e)))
            = (\<not> (e \<in> set (a # es) \<and> \<not> sweepContinues H t (snd e)))"
      proof (cases "fst e = k")
        case True
        with only[OF e] False a show ?thesis by simp
      next
        case ne: False
        then have "e \<noteq> a" using a by auto
        with ne cont1[OF e ne] show ?thesis by simp
      qed
    qed
    have rc_not_later: "rc \<notin> snd ` {e \<in> set es. \<not> sweepContinues H t1 (snd e)}"
    proof
      assume "rc \<in> snd ` {e \<in> set es. \<not> sweepContinues H t1 (snd e)}"
      then obtain e where e: "e \<in> set es" "snd e = rc" by auto
      then have "e \<in> set (resources t)" "fst e \<noteq> k" using sub knew by auto
      from other[OF this] e(2) show False by simp
    qed
    have ev': "\<forall>e. e \<in> set (a # es) \<and> \<not> sweepContinues H t (snd e)
                  \<longrightarrow> Handle_of t' (snd e) = Inr HandleNull"
    proof (intro allI impI)
      fix e assume e: "e \<in> set (a # es) \<and> \<not> sweepContinues H t (snd e)"
      show "Handle_of t' (snd e) = Inr HandleNull"
      proof (cases "e = a")
        case True
        have "sameContext t1 t' rc" using fr rc_not_later by blast
        then show ?thesis using hn1 True a by (simp add: sameContext_Handle)
      next
        case False
        with e have m: "e \<in> set es" by simp
        with e cont_es[OF m] have "e \<in> set es \<and> \<not> sweepContinues H t1 (snd e)" by simp
        with ev show ?thesis by blast
      qed
    qed
    have fr': "\<forall>rc'. rc' \<notin> snd ` {e \<in> set (a # es). \<not> sweepContinues H t (snd e)}
                  \<longrightarrow> sameContext t t' rc'"
    proof (intro allI impI)
      fix rc' assume n: "rc' \<notin> snd ` {e \<in> set (a # es). \<not> sweepContinues H t (snd e)}"
      have "rc' \<noteq> rc" using n False a by force
      then have s1: "sameContext t t1 rc'" using fr1 by blast
      have "rc' \<notin> snd ` {e \<in> set es. \<not> sweepContinues H t1 (snd e)}"
        using n cont_es by force
      then have "sameContext t1 t' rc'" using fr by blast
      with s1 show "sameContext t t' rc'" by (rule sameContext_trans)
    qed
    from run tc' res' ev' fr' show ?thesis by blast
  qed
qed


lemma sweep_table:
  assumes tc: "tableConsistent t1"
  shows "\<exists>t2. sweep H (resources t1) t1 = Inr t2
           \<and> tableConsistent t2
           \<and> (\<forall>e \<in> set (resources t1).
                 evictedIn t2 e = (\<not> sweepContinues H t1 (snd e))
                 \<and> retainedIn t1 t2 e = sweepContinues H t1 (snd e))
           \<and> sessions t2 = sessions t1"
proof -
  have dist: "distinct (map fst (resources t1))"
    using tc by (simp add: tableConsistent_def)
  from sweep_effect[OF tc subset_refl dist, of H] obtain t2 where
    sw: "sweep H (resources t1) t1 = Inr t2" and tc2: "tableConsistent t2"
    and res: "resources t2
        = filter (\<lambda>e. \<not> (e \<in> set (resources t1) \<and> \<not> sweepContinues H t1 (snd e))) (resources t1)"
    and ev: "\<forall>e. e \<in> set (resources t1) \<and> \<not> sweepContinues H t1 (snd e)
                  \<longrightarrow> Handle_of t2 (snd e) = Inr HandleNull"
    and fr: "\<forall>rc. rc \<notin> snd ` {e \<in> set (resources t1). \<not> sweepContinues H t1 (snd e)}
                  \<longrightarrow> sameContext t1 t2 rc"
    by blast
  have evicted: "evictedIn t2 e" "\<not> retainedIn t1 t2 e"
    if e: "e \<in> set (resources t1)" and nc: "\<not> sweepContinues H t1 (snd e)" for e
  proof -
    have "fst e \<notin> fst ` set (resources t2)"
    proof
      assume "fst e \<in> fst ` set (resources t2)"
      then obtain e' where e': "e' \<in> set (resources t2)" "fst e' = fst e" by auto
      then have m: "e' \<in> set (resources t1)" and c: "sweepContinues H t1 (snd e')"
        by (auto simp: res)
      have "map_of (resources t1) (fst e') = Some (snd e')"
        using m dist by simp
      moreover have "map_of (resources t1) (fst e) = Some (snd e)"
        using e dist by simp
      ultimately have "snd e' = snd e" using e'(2) by simp
      with c nc show False by simp
    qed
    then have none: "map_of (resources t2) (fst e) = None"
      by (simp add: map_of_eq_None_iff)
    moreover have "Handle_of t2 (snd e) = Inr HandleNull"
      using ev e nc by blast
    ultimately show "evictedIn t2 e" by (simp add: evictedIn_def)
    from none show "\<not> retainedIn t1 t2 e" by (simp add: retainedIn_def)
  qed
  have retained: "retainedIn t1 t2 e" "\<not> evictedIn t2 e"
    if e: "e \<in> set (resources t1)" and c: "sweepContinues H t1 (snd e)" for e
  proof -
    have m2: "(fst e, snd e) \<in> set (resources t2)"
      using e c by (simp add: res)
    have look: "map_of (resources t2) (fst e) = Some (snd e)"
      by (rule consistent_lookup[OF tc2 m2])
    have "snd e \<notin> snd ` {e \<in> set (resources t1). \<not> sweepContinues H t1 (snd e)}"
      using c by auto
    then have sc: "sameContext t1 t2 (snd e)" using fr by blast
    have "entryConsistent t1 (fst e, snd e)"
      using consistent_entry[OF tc, of "fst e" "snd e"] e by simp
    then have "Handle_of t1 (snd e) = Inr (fst e)"
      by (rule entryConsistent_Handle[THEN conjunct1])
    with sc have "Handle_of t2 (snd e) = Inr (fst e)"
      by (simp add: sameContext_Handle)
    with look sc show "retainedIn t1 t2 e"
      by (simp add: retainedIn_def sameContext_Name)
    from look show "\<not> evictedIn t2 e" by (simp add: evictedIn_def)
  qed
  have sess: "sessions t2 = sessions t1"
  proof
    fix r
    have "SessionRef r \<notin> snd ` {e \<in> set (resources t1). \<not> sweepContinues H t1 (snd e)}"
      by force
    then have "sameContext t1 t2 (SessionRef r)" using fr by blast
    then show "sessions t2 r = sessions t1 r" by simp
  qed
  from sw tc2 evicted retained sess show ?thesis by blast
qed

lemma Clear_after_run:
  assumes "validateHandleWithAuth p t [] authHandle authHandleAuth = Inr s"
    and "validateSessions p t s sess = Inr s'"
    and "runCommandWithoutProcessingResponse p t CommandClear s' authHandle [] = (res, t1)"
    and "sweep (getHandles p HandleTypePersistent (getHandles p HandleTypeTransient {}))
           (resources t1) t1 = Inr t2"
  shows "Clear p t authHandle authHandleAuth sess
           = (case res of
                Inl err \<Rightarrow> Inr (Some err, t2)
              | Inr ctx \<Rightarrow>
                  (case adoptNewAuth ctx [] of
                     Inl pn \<Rightarrow> Inl pn
                   | Inr ctx' \<Rightarrow> Inr (processResponse p t2 ctx')))"
  using assms by (simp add: Clear_def)



lemma exState_consistent: "tableConsistent exState"
  by (simp add: tableConsistent_def ex_defs HandleNull_def)

lemma BaseHandle_values:
  "BaseHandle HandleTypeTransient = 0x80000000" "BaseHandle HandleTypePersistent = 0x81000000"
  by (simp_all add: BaseHandle_def HandleType_defs)


text \<open>
  C9: in the sweep of \<open>Clear\<close> a failed enumeration is ignored: its error appears nowhere
  in the result of \<open>Clear\<close>, and its handles are missing from the surviving set. When the
  enumeration of the transient handles fails (and the other one returns persistent handles
  only), every tracked object context with a transient handle is evicted and invalidated;
  likewise for the persistent handles; when both fail, every tracked object context is.
  Whether the object is still resident on the TPM plays no part.
\<close>

theorem Clear_enumeration_failure_ignored:
  assumes v1: "validateHandleWithAuth p t [] authHandle authHandleAuth = Inr s"
    and v2: "validateSessions p t s sess = Inr s'"
    and run: "runCommandWithoutProcessingResponse p t CommandClear s' authHandle [] = (res, t1)"
    and tc: "tableConsistent t1"
  shows "\<exists>t2. sweep (getHandles p HandleTypePersistent (getHandles p HandleTypeTransient {}))
                (resources t1) t1 = Inr t2
           \<and> Clear p t authHandle authHandleAuth sess
               = (case res of
                    Inl err \<Rightarrow> Inr (Some err, t2)
                  | Inr ctx \<Rightarrow>
                      (case adoptNewAuth ctx [] of
                         Inl pn \<Rightarrow> Inl pn
                       | Inr ctx' \<Rightarrow> Inr (processResponse p t2 ctx')))
           \<and> (\<forall>e \<in> set (resources t1). \<forall>r. snd e = ObjectRef r \<longrightarrow>
                 ((\<exists>err. GetCapabilityHandles p (BaseHandle HandleTypeTransient) = Inl err)
                  \<and> (\<forall>ps. GetCapabilityHandles p (BaseHandle HandleTypePersistent) = Inr ps
                          \<longrightarrow> (\<forall>h \<in> set ps. Type h = HandleTypePersistent))
                  \<and> Type (fst e) = HandleTypeTransient
                  \<longrightarrow> evictedIn t2 e)
               \<and> ((\<exists>err. GetCapabilityHandles p (BaseHandle HandleTypePersistent) = Inl err)
                  \<and> (\<forall>ts. GetCapabilityHandles p (BaseHandle HandleTypeTransient) = Inr ts
                          \<longrightarrow> (\<forall>h \<in> set ts. Type h = HandleTypeTransient))
                  \<and> Type (fst e) = HandleTypePersistent
                  \<longrightarrow> evictedIn t2 e)
               \<and> ((\<exists>err. GetCapabilityHandles p (BaseHandle HandleTypeTransient) = Inl err)
                  \<and> (\<exists>err. GetCapabilityHandles p (BaseHandle HandleTypePersistent) = Inl err)
                  \<longrightarrow> evictedIn t2 e))"
proof -
  let ?H = "getHandles p HandleTypePersistent (getHandles p HandleTypeTransient {})"
  from sweep_table[OF tc, of ?H] obtain t2 where
    sw: "sweep ?H (resources t1) t1 = Inr t2"
    and each: "\<forall>e \<in> set (resources t1).
                 evictedIn t2 e = (\<not> sweepContinues ?H t1 (snd e))
                 \<and> retainedIn t1 t2 e = sweepContinues ?H t1 (snd e)"
    by blast
  have cl: "Clear p t authHandle authHandleAuth sess
               = (case res of
                    Inl err \<Rightarrow> Inr (Some err, t2)
                  | Inr ctx \<Rightarrow>
                      (case adoptNewAuth ctx [] of
                         Inl pn \<Rightarrow> Inl pn
                       | Inr ctx' \<Rightarrow> Inr (processResponse p t2 ctx')))"
    by (rule Clear_after_run[OF v1 v2 run sw])
  have ev: "evictedIn t2 e" if e: "e \<in> set (resources t1)" "snd e = ObjectRef r" "fst e \<notin> ?H"
    for e r
  proof -
    have "entryConsistent t1 (fst e, snd e)"
      using consistent_entry[OF tc, of "fst e" "snd e"] e(1) by simp
    then have "o_handle (objects t1 r) = fst e" using e(2) by simp
    then have "\<not> sweepContinues ?H t1 (snd e)" using e(2,3) by simp
    with each e(1) show ?thesis by blast
  qed
  have per: "\<forall>e \<in> set (resources t1). \<forall>r. snd e = ObjectRef r \<longrightarrow>
                 ((\<exists>err. GetCapabilityHandles p (BaseHandle HandleTypeTransient) = Inl err)
                  \<and> (\<forall>ps. GetCapabilityHandles p (BaseHandle HandleTypePersistent) = Inr ps
                          \<longrightarrow> (\<forall>h \<in> set ps. Type h = HandleTypePersistent))
                  \<and> Type (fst e) = HandleTypeTransient
                  \<longrightarrow> evictedIn t2 e)
               \<and> ((\<exists>err. GetCapabilityHandles p (BaseHandle HandleTypePersistent) = Inl err)
                  \<and> (\<forall>ts. GetCapabilityHandles p (BaseHandle HandleTypeTransient) = Inr ts
                          \<longrightarrow> (\<forall>h \<in> set ts. Type h = HandleTypeTransient))
                  \<and> Type (fst e) = HandleTypePersistent
                  \<longrightarrow> evictedIn t2 e)
               \<and> ((\<exists>err. GetCapabilityHandles p (BaseHandle HandleTypeTransient) = Inl err)
                  \<and> (\<exists>err. GetCapabilityHandles p (BaseHandle HandleTypePersistent) = Inl err)
                  \<longrightarrow> evictedIn t2 e)"
  proof (intro ballI allI impI conjI)
    fix e r
    assume e: "e \<in> set (resources t1)" "snd e = ObjectRef r"
    assume a: "(\<exists>err. GetCapabilityHandles p (BaseHandle HandleTypeTransient) = Inl err)
                  \<and> (\<forall>ps. GetCapabilityHandles p (BaseHandle HandleTypePersistent) = Inr ps
                          \<longrightarrow> (\<forall>h \<in> set ps. Type h = HandleTypePersistent))
                  \<and> Type (fst e) = HandleTypeTransient"
    then have "fst e \<notin> ?H"
      using HandleType_distinct
      by (cases "GetCapabilityHandles p (BaseHandle HandleTypePersistent)")
         (auto simp: getHandles_def)
    then show "evictedIn t2 e" by (rule ev[OF e])
  next
    fix e r
    assume e: "e \<in> set (resources t1)" "snd e = ObjectRef r"
    assume a: "(\<exists>err. GetCapabilityHandles p (BaseHandle HandleTypePersistent) = Inl err)
                  \<and> (\<forall>ts. GetCapabilityHandles p (BaseHandle HandleTypeTransient) = Inr ts
                          \<longrightarrow> (\<forall>h \<in> set ts. Type h = HandleTypeTransient))
                  \<and> Type (fst e) = HandleTypePersistent"
    then have "fst e \<notin> ?H"
      using HandleType_distinct
      by (cases "GetCapabilityHandles p (BaseHandle HandleTypeTransient)")
         (auto simp: getHandles_def)
    then show "evictedIn t2 e" by (rule ev[OF e])
  next
    fix e r
    assume e: "e \<in> set (resources t1)" "snd e = ObjectRef r"
    assume a: "(\<exists>err. GetCapabilityHandles p (BaseHandle HandleTypeTransient) = Inl err)
                  \<and> (\<exists>err. GetCapabilityHandles p (BaseHandle HandleTypePersistent) = Inl err)"
    then have "fst e \<notin> ?H"
      by (auto simp: getHandles_def)
    then show "evictedIn t2 e" by (rule ev[OF e])
  qed
  from sw cl per show ?thesis by blast
qed


text \<open>
  The theorem where the enumeration of the transient handles fails with a TPM error: the
  tracked transient key is evicted and \<open>Clear\<close> returns no error.
\<close>

theorem Clear_enumeration_failure_witness:
  "validateHandleWithAuth exPipelineNoTransient exState [] 0x4000000a AuthNil
     = Inr [\<lparr>session = None\<rparr>]
   \<and> validateSessions exPipelineNoTransient exState [\<lparr>session = None\<rparr>] []
       = Inr [\<lparr>session = None\<rparr>]
   \<and> tableConsistent exState
   \<and> GetCapabilityHandles exPipelineNoTransient (BaseHandle HandleTypeTransient)
       = Inl (TPMError 0x0000017a 0x01)
   \<and> GetCapabilityHandles exPipelineNoTransient (BaseHandle HandleTypePersistent)
       = Inr [0x8100ffff]
   \<and> Type 0x8100ffff = HandleTypePersistent
   \<and> (0x80000000, ObjectRef 0) \<in> set (resources exState)
   \<and> Type 0x80000000 = HandleTypeTransient
   \<and> (\<exists>t2. Clear exPipelineNoTransient exState 0x4000000a AuthNil [] = Inr (None, t2)
          \<and> evictedIn t2 (0x80000000, ObjectRef 0))"
proof -
  let ?ctx = "\<lparr>commandCode = CommandClear, sessionParams = [\<lparr>session = None\<rparr>], rpHash = [],
              responseAuthArea = []\<rparr>"
  have v1: "validateHandleWithAuth exPipelineNoTransient exState [] 0x4000000a AuthNil
              = Inr [\<lparr>session = None\<rparr>]"
    by (simp add: exPipelineNoTransient_def exPipeline_def)
  have v2: "validateSessions exPipelineNoTransient exState [\<lparr>session = None\<rparr>] []
              = Inr [\<lparr>session = None\<rparr>]"
    by (simp add: exPipelineNoTransient_def exPipeline_def)
  have run: "runCommandWithoutProcessingResponse exPipelineNoTransient exState CommandClear
               [\<lparr>session = None\<rparr>] 0x4000000a [] = (Inr ?ctx, exState)"
    by (simp add: exPipelineNoTransient_def exPipeline_def)
  have g1: "GetCapabilityHandles exPipelineNoTransient (BaseHandle HandleTypeTransient)
              = Inl (TPMError 0x0000017a 0x01)"
    by (simp add: exPipelineNoTransient_def BaseHandle_values)
  have g2: "GetCapabilityHandles exPipelineNoTransient (BaseHandle HandleTypePersistent)
              = Inr [0x8100ffff]"
    by (simp add: exPipelineNoTransient_def BaseHandle_values)
  have ty: "Type 0x8100ffff = HandleTypePersistent" "Type 0x80000000 = HandleTypeTransient"
    by (simp_all add: Type_def HandleType_defs)
  have mem: "(0x80000000, ObjectRef 0) \<in> set (resources exState)"
    by (simp add: ex_defs)
  from Clear_enumeration_failure_ignored[OF v1 v2 run exState_consistent] obtain t2 where
    cl: "Clear exPipelineNoTransient exState 0x4000000a AuthNil []
           = (case adoptNewAuth ?ctx [] of
                Inl pn \<Rightarrow> Inl pn
              | Inr ctx' \<Rightarrow> Inr (processResponse exPipelineNoTransient t2 ctx'))"
    and per: "\<forall>e \<in> set (resources exState). \<forall>r. snd e = ObjectRef r \<longrightarrow>
                 ((\<exists>err. GetCapabilityHandles exPipelineNoTransient (BaseHandle HandleTypeTransient)
                           = Inl err)
                  \<and> (\<forall>ps. GetCapabilityHandles exPipelineNoTransient (BaseHandle HandleTypePersistent)
                            = Inr ps
                          \<longrightarrow> (\<forall>h \<in> set ps. Type h = HandleTypePersistent))
                  \<and> Type (fst e) = HandleTypeTransient
                  \<longrightarrow> evictedIn t2 e)"
    by auto
  have "Clear exPipelineNoTransient exState 0x4000000a AuthNil [] = Inr (None, t2)"
    using cl by (simp add: adoptNewAuth_def exPipelineNoTransient_def exPipeline_def)
  moreover from per[rule_format, OF mem, of 0] g1 g2 ty
  have "evictedIn t2 (0x80000000, ObjectRef 0)" by simp
  ultimately show ?thesis
    using v1 v2 exState_consistent g1 g2 ty mem by blast
qed

section \<open>Transport failure\<close>

text \<open>
  C3: when the transport call fails, no local state is to be mutated. \<open>Clear\<close> runs its
  sweep before it looks at the error of \<open>runCommandWithoutProcessingResponse\<close>. With the
  transport down, the command fails and leaves the state as it is, both enumerations fail
  too, and \<open>Clear\<close> returns the transport error after it has evicted and invalidated the
  transient key, the persistent key and the NV index of the owner: the state it returns is
  not the one it was given. \<open>HierarchyChangeAuth\<close>, which checks the error at once,
  returns the same error with the state unchanged.
\<close>

theorem Clear_sweeps_after_transport_failure:
  "runCommandWithoutProcessingResponse exPipelineDown exState CommandClear [\<lparr>session = None\<rparr>]
     0x4000000a [] = (Inl (TransportError ''write: broken pipe''), exState)
   \<and> (case Clear exPipelineDown exState 0x4000000a AuthNil [] of
        Inl pn \<Rightarrow> False
      | Inr (err, t2) \<Rightarrow>
          err = Some (TransportError ''write: broken pipe'')
          \<and> resources t2 = [(0x03000000, SessionRef 0), (0x0141ffff, NVIndexRef 1)]
          \<and> Handle_of t2 (ObjectRef 0) = Inr HandleNull
          \<and> Handle_of t2 (ObjectRef 1) = Inr HandleNull
          \<and> Handle_of t2 (NVIndexRef 0) = Inr HandleNull
          \<and> t2 \<noteq> exState)
   \<and> HierarchyChangeAuth exPipelineDown exState 0x40000001 [] AuthNil []
       = Inr (Some (TransportError ''write: broken pipe''), exState)"
proof -
  have run: "runCommandWithoutProcessingResponse exPipelineDown exState CommandClear
      [\<lparr>session = None\<rparr>] 0x4000000a [] = (Inl (TransportError ''write: broken pipe''), exState)"
    by (simp add: exPipelineDown_def exPipeline_def)
  have H: "getHandles exPipelineDown HandleTypePersistent (getHandles exPipelineDown HandleTypeTransient {})
            = {}"
    by (simp add: getHandles_def exPipelineDown_def)
  have sw: "sweep {} (resources exState) exState
          = Inr (exState\<lparr>resources := [(0x03000000, SessionRef 0), (0x0141ffff, NVIndexRef 1)],
                  objects := (objects exState)
                    (0 := invalidated_object exObject, 1 := invalidated_object exPersistent),
                  nvIndices := (nvIndices exState)(0 := invalidated_nvIndex exNVOwner)\<rparr>)"
    by (simp add: ex_defs evictResourceContext_def checkResourceContextParam_def HandleNull_def
        invalidate_object_def invalidate_nvIndex_def PutUint32_def delete_key_def
        invalidated_object_def invalidated_nvIndex_def AttrNVPlatformCreate_def)
  have cl: "Clear exPipelineDown exState 0x4000000a AuthNil []
          = Inr (Some (TransportError ''write: broken pipe''),
                 exState\<lparr>resources := [(0x03000000, SessionRef 0), (0x0141ffff, NVIndexRef 1)],
                  objects := (objects exState)
                    (0 := invalidated_object exObject, 1 := invalidated_object exPersistent),
                  nvIndices := (nvIndices exState)(0 := invalidated_nvIndex exNVOwner)\<rparr>)"
    unfolding Clear_def H
    by (simp add: exPipelineDown_def exPipeline_def sw[unfolded exPipelineDown_def])
  have ne: "exState\<lparr>resources := [(0x03000000, SessionRef 0), (0x0141ffff, NVIndexRef 1)],
                  objects := (objects exState)
                    (0 := invalidated_object exObject, 1 := invalidated_object exPersistent),
                  nvIndices := (nvIndices exState)(0 := invalidated_nvIndex exNVOwner)\<rparr> \<noteq> exState"
  proof
    assume "exState\<lparr>resources := [(0x03000000, SessionRef 0), (0x0141ffff, NVIndexRef 1)],
                  objects := (objects exState)
                    (0 := invalidated_object exObject, 1 := invalidated_object exPersistent),
                  nvIndices := (nvIndices exState)(0 := invalidated_nvIndex exNVOwner)\<rparr> = exState"
    then have "resources (exState\<lparr>resources := [(0x03000000, SessionRef 0), (0x0141ffff, NVIndexRef 1)],
                  objects := (objects exState)
                    (0 := invalidated_object exObject, 1 := invalidated_object exPersistent),
                  nvIndices := (nvIndices exState)(0 := invalidated_nvIndex exNVOwner)\<rparr>)
               = resources exState" by simp
    then show False by (simp add: ex_defs)
  qed
  have hca: "HierarchyChangeAuth exPipelineDown exState 0x40000001 [] AuthNil []
       = Inr (Some (TransportError ''write: broken pipe''), exState)"
    by (simp add: HierarchyChangeAuth_def exPipelineDown_def exPipeline_def)
  show ?thesis
    using run ne hca
    by (simp add: cl invalidated_object_def invalidated_nvIndex_def)
qed

section \<open>Self-referential secret rotation\<close>

lemma verifyResponseHMACs_cong:
  "sessions t' = sessions t \<Longrightarrow> rpHash ctx' = rpHash ctx \<Longrightarrow>
   verifyResponseHMACs hmac t' ctx' sps ars = verifyResponseHMACs hmac t ctx sps ars"
  by (induction hmac t ctx sps ars rule: verifyResponseHMACs.induct)
     (auto simp: hmacKey_def sessionNonceCaller_def responseHMAC_def
           split: option.splits ResourceContext.splits)

lemma processResponseHMAC_adopted:
  assumes "sessionParams ctx = sp # rest" "session sp = Some a" "Context a = SessionRef r"
    and "includeAuthValue a" "responseAuthArea ctx = ar # ars"
    and "adoptNewAuth ctx newAuth = Inr ctx'"
  shows "processResponseHMAC hmac t ctx'
           = (if responseHMAC hmac (sessionKey (sessions t r) @ newAuth)
                   (nonceCaller (sessions t r)) ctx ar = ar_hmac ar
                 \<and> verifyResponseHMACs hmac t ctx rest ars
              then None
              else Some (InvalidResponseError (commandCode ctx) ''incorrect HMAC''), t)"
proof -
  from assms have c': "ctx' = ctx\<lparr>sessionParams :=
                          sp\<lparr>session := Some (copyWithNewAuthIfRequired a newAuth)\<rparr> # rest\<rparr>"
    by (simp add: adoptNewAuth_def)
  have v: "verifyResponseHMACs hmac t ctx' rest ars = verifyResponseHMACs hmac t ctx rest ars"
    by (rule verifyResponseHMACs_cong) (simp_all add: c')
  show ?thesis
    using assms(3,4,5) v
    by (simp add: processResponseHMAC_def c' hmacKey_def sessionNonceCaller_def
        copyWithNewAuthIfRequired_def responseHMAC_def)
qed

lemma adoptNewAuth_Some:
  "sessionParams ctx = sp # rest \<Longrightarrow> session sp = Some a \<Longrightarrow>
   \<exists>ctx'. adoptNewAuth ctx newAuth = Inr ctx'"
  by (simp add: adoptNewAuth_def)

text \<open>
  C1: for \<open>HierarchyChangeAuth\<close> and \<open>Clear\<close>, authorized with a session whose HMAC
  key includes the auth value of the handle, the response HMAC is verified with the key
  made from the secret in force after the command. The session that replaces the first
  session parameter has the key \<open>sessionKey || newAuth\<close>, whatever auth value the
  request was built with; \<open>HierarchyChangeAuth\<close> succeeds exactly when the HMAC of the
  response is the HMAC under \<open>sessionKey || newAuth\<close> (and the further sessions verify),
  and \<open>Clear\<close> exactly when it is the HMAC under the session key with the empty secret.
\<close>

theorem rotation_verifies_with_post_change_secret:
  assumes v1: "validateHandleWithAuth p t [] authHandle authHandleAuth = Inr s"
    and v2: "validateSessions p t s sess = Inr s'"
    and sp: "sessionParams ctx = sp # rest" "session sp = Some a" "Context a = SessionRef r"
    and inc: "includeAuthValue a"
    and ar: "responseAuthArea ctx = ar # ars"
    and pr: "processResponse p = processResponseHMAC hmac"
  shows "hmacKey t1 (copyWithNewAuthIfRequired a newAuth) = sessionKey (sessions t1 r) @ newAuth
       \<and> (runCommandWithoutProcessingResponse p t CommandHierarchyChangeAuth s' authHandle [newAuth]
             = (Inr ctx, t1) \<longrightarrow>
           HierarchyChangeAuth p t authHandle newAuth authHandleAuth sess
             = Inr (if responseHMAC hmac (sessionKey (sessions t1 r) @ newAuth)
                         (nonceCaller (sessions t1 r)) ctx ar = ar_hmac ar
                       \<and> verifyResponseHMACs hmac t1 ctx rest ars
                    then None
                    else Some (InvalidResponseError (commandCode ctx) ''incorrect HMAC''), t1))
       \<and> (runCommandWithoutProcessingResponse p t CommandClear s' authHandle [] = (Inr ctx, t1)
           \<and> tableConsistent t1 \<longrightarrow>
           (\<exists>t2. sweep (getHandles p HandleTypePersistent (getHandles p HandleTypeTransient {}))
                    (resources t1) t1 = Inr t2
                \<and> Clear p t authHandle authHandleAuth sess
                    = Inr (if responseHMAC hmac (sessionKey (sessions t1 r) @ [])
                                (nonceCaller (sessions t1 r)) ctx ar = ar_hmac ar
                              \<and> verifyResponseHMACs hmac t1 ctx rest ars
                           then None
                           else Some (InvalidResponseError (commandCode ctx) ''incorrect HMAC''),
                           t2)))"
proof (intro conjI impI)
  show "hmacKey t1 (copyWithNewAuthIfRequired a newAuth) = sessionKey (sessions t1 r) @ newAuth"
    using sp(3) inc by (simp add: hmacKey_def copyWithNewAuthIfRequired_def)
next
  assume run: "runCommandWithoutProcessingResponse p t CommandHierarchyChangeAuth s' authHandle
                 [newAuth] = (Inr ctx, t1)"
  from adoptNewAuth_Some[OF sp(1,2)] obtain ctx' where ad: "adoptNewAuth ctx newAuth = Inr ctx'"
    by blast
  have "HierarchyChangeAuth p t authHandle newAuth authHandleAuth sess
          = Inr (processResponseHMAC hmac t1 ctx')"
    using v1 v2 run ad pr by (simp add: HierarchyChangeAuth_def)
  then show "HierarchyChangeAuth p t authHandle newAuth authHandleAuth sess
             = Inr (if responseHMAC hmac (sessionKey (sessions t1 r) @ newAuth)
                         (nonceCaller (sessions t1 r)) ctx ar = ar_hmac ar
                       \<and> verifyResponseHMACs hmac t1 ctx rest ars
                    then None
                    else Some (InvalidResponseError (commandCode ctx) ''incorrect HMAC''), t1)"
    by (simp only: processResponseHMAC_adopted[OF sp inc ar ad])
next
  assume a: "runCommandWithoutProcessingResponse p t CommandClear s' authHandle [] = (Inr ctx, t1)
             \<and> tableConsistent t1"
  let ?H = "getHandles p HandleTypePersistent (getHandles p HandleTypeTransient {})"
  from a have run: "runCommandWithoutProcessingResponse p t CommandClear s' authHandle []
                      = (Inr ctx, t1)"
    and tc: "tableConsistent t1" by simp_all
  from sweep_table[OF tc, of ?H] obtain t2 where
    sw: "sweep ?H (resources t1) t1 = Inr t2" and sess: "sessions t2 = sessions t1"
    by blast
  from adoptNewAuth_Some[OF sp(1,2)] obtain ctx' where ad: "adoptNewAuth ctx [] = Inr ctx'"
    by blast
  have "Clear p t authHandle authHandleAuth sess = Inr (processResponseHMAC hmac t2 ctx')"
    using Clear_after_run[OF v1 v2 run sw] ad pr by simp
  also have "processResponseHMAC hmac t2 ctx'
           = (if responseHMAC hmac (sessionKey (sessions t2 r) @ [])
                   (nonceCaller (sessions t2 r)) ctx ar = ar_hmac ar
                 \<and> verifyResponseHMACs hmac t2 ctx rest ars
              then None
              else Some (InvalidResponseError (commandCode ctx) ''incorrect HMAC''), t2)"
    by (rule processResponseHMAC_adopted[OF sp inc ar ad])
  also have "verifyResponseHMACs hmac t2 ctx rest ars = verifyResponseHMACs hmac t1 ctx rest ars"
    by (rule verifyResponseHMACs_cong[OF sess refl])
  finally have "Clear p t authHandle authHandleAuth sess
                    = Inr (if responseHMAC hmac (sessionKey (sessions t1 r) @ [])
                                (nonceCaller (sessions t1 r)) ctx ar = ar_hmac ar
                              \<and> verifyResponseHMACs hmac t1 ctx rest ars
                           then None
                           else Some (InvalidResponseError (commandCode ctx) ''incorrect HMAC''),
                           t2)"
    by (simp add: sess)
  with sw show "\<exists>t2. sweep ?H (resources t1) t1 = Inr t2
                \<and> Clear p t authHandle authHandleAuth sess
                    = Inr (if responseHMAC hmac (sessionKey (sessions t1 r) @ [])
                                (nonceCaller (sessions t1 r)) ctx ar = ar_hmac ar
                              \<and> verifyResponseHMACs hmac t1 ctx rest ars
                           then None
                           else Some (InvalidResponseError (commandCode ctx) ''incorrect HMAC''),
                           t2)"
    by blast
qed


text \<open>
  The theorem for a session with the old auth value \<open>old\<close> and the new value \<open>new\<close>:
  the request key ends in the old value, the response key in the new one, and both
  commands verify the answer of the TPM.
\<close>

theorem rotation_witness:
  "validateHandleWithAuth exPipelineAuth exState [] 0x40000001 (AuthSession exAuthSession)
     = Inr [\<lparr>session = Some exAuthSession\<rparr>]
   \<and> validateSessions exPipelineAuth exState [\<lparr>session = Some exAuthSession\<rparr>] []
       = Inr [\<lparr>session = Some exAuthSession\<rparr>]
   \<and> Context exAuthSession = SessionRef 0
   \<and> includeAuthValue exAuthSession
   \<and> processResponse exPipelineAuth = processResponseHMAC exHmac
   \<and> tableConsistent exState
   \<and> hmacKey exState exAuthSession = [0x01, 0x02, 0x6f, 0x6c, 0x64]
   \<and> hmacKey exState (copyWithNewAuthIfRequired exAuthSession [0x6e, 0x65, 0x77])
       = [0x01, 0x02, 0x6e, 0x65, 0x77]
   \<and> HierarchyChangeAuth exPipelineAuth exState 0x40000001 [0x6e, 0x65, 0x77]
         (AuthSession exAuthSession) []
       = Inr (None, exState)
   \<and> (\<exists>t2. Clear exPipelineAuth exState 0x4000000a (AuthSession exAuthSession) []
               = Inr (None, t2))"
proof -
  let ?sp = "\<lparr>session = Some exAuthSession\<rparr>"
  let ?arH = "\<lparr>ar_nonceTPM = [0x33], ar_attrs = 0x01,
              ar_hmac = exHmac ([0x01, 0x02] @ [0x6e, 0x65, 0x77]) [0x33, 0x11, 0x01, 0x44]\<rparr>"
  let ?arC = "\<lparr>ar_nonceTPM = [0x33], ar_attrs = 0x01,
              ar_hmac = exHmac [0x01, 0x02] [0x33, 0x11, 0x01, 0x44]\<rparr>"
  let ?ctxH = "\<lparr>commandCode = CommandHierarchyChangeAuth, sessionParams = [?sp], rpHash = [0x44],
               responseAuthArea = [?arH]\<rparr>"
  let ?ctxC = "\<lparr>commandCode = CommandClear, sessionParams = [?sp], rpHash = [0x44],
               responseAuthArea = [?arC]\<rparr>"
  have v1: "validateHandleWithAuth exPipelineAuth exState [] h (AuthSession exAuthSession)
              = Inr [?sp]" for h
    by (simp add: exPipelineAuth_def exPipeline_def)
  have v2: "validateSessions exPipelineAuth exState [?sp] [] = Inr [?sp]"
    by (simp add: exPipelineAuth_def exPipeline_def)
  have c: "Context exAuthSession = SessionRef 0" and i: "includeAuthValue exAuthSession"
    by (simp_all add: exAuthSession_def)
  have pr: "processResponse exPipelineAuth = processResponseHMAC exHmac"
    by (simp add: exPipelineAuth_def)
  have runH: "runCommandWithoutProcessingResponse exPipelineAuth exState CommandHierarchyChangeAuth
                [?sp] 0x40000001 [[0x6e, 0x65, 0x77]] = (Inr ?ctxH, exState)"
    by (simp add: exPipelineAuth_def)
  have runC: "runCommandWithoutProcessingResponse exPipelineAuth exState CommandClear
                [?sp] 0x4000000a [] = (Inr ?ctxC, exState)"
    by (simp add: exPipelineAuth_def)
  have k: "sessionKey (sessions exState 0) = [0x01, 0x02]"
    "nonceCaller (sessions exState 0) = [0x11]"
    by (simp_all add: ex_defs)
  have old: "hmacKey exState exAuthSession = [0x01, 0x02, 0x6f, 0x6c, 0x64]"
    by (simp add: hmacKey_def exAuthSession_def k)
  note thH = rotation_verifies_with_post_change_secret
      [OF v1 v2, where ctx = ?ctxH and sp = ?sp and rest = "[]" and a = exAuthSession and r = 0
         and ar = ?arH and ars = "[]" and hmac = exHmac and ?t1.0 = exState
         and newAuth = "[0x6e, 0x65, 0x77]" and authHandle = "0x40000001"]
  note thC = rotation_verifies_with_post_change_secret
      [OF v1 v2, where ctx = ?ctxC and sp = ?sp and rest = "[]" and a = exAuthSession and r = 0
         and ar = ?arC and ars = "[]" and hmac = exHmac and ?t1.0 = exState
         and authHandle = "0x4000000a"]
  from thH c i pr runH k
  have new: "hmacKey exState (copyWithNewAuthIfRequired exAuthSession [0x6e, 0x65, 0x77])
               = [0x01, 0x02, 0x6e, 0x65, 0x77]"
    and hca: "HierarchyChangeAuth exPipelineAuth exState 0x40000001 [0x6e, 0x65, 0x77]
                (AuthSession exAuthSession) [] = Inr (None, exState)"
    by (simp_all add: responseHMAC_def)
  from thC c i pr runC k exState_consistent
  have cl: "\<exists>t2. Clear exPipelineAuth exState 0x4000000a (AuthSession exAuthSession) []
               = Inr (None, t2)"
    by (auto simp: responseHMAC_def)
  from v1 v2 c i pr exState_consistent old new hca cl show ?thesis by blast
qed

end
